theory Spec2Isabelle
  imports Complex_Main
begin

section \<open>SentimentScope: text helpers of the ML pipeline (ml\_api.py)\<close>

text \<open>
  Python strings are modelled as \<^typ>\<open>string\<close>. The model is exact on ASCII text: the
  characters above 127 are kept as they are by \<open>lower\<close> and \<open>title\<close>, and are neither
  letters of \<open>[a-zA-Z]\<close> nor whitespace.
\<close>

subsection \<open>Characters\<close>

definition ascii_lowercase :: string where
  "ascii_lowercase = ''abcdefghijklmnopqrstuvwxyz''"

definition ascii_uppercase :: string where
  "ascii_uppercase = ''ABCDEFGHIJKLMNOPQRSTUVWXYZ''"

text \<open>
  The ASCII characters for which Python's \<open>str.isspace\<close> holds; the same set is what
  \<open>\s\<close> matches in \<open>re\<close>, and what \<open>str.strip()\<close> and \<open>str.split()\<close> remove:
  tab, line feed, vertical tab, form feed, carriage return, the four separators
  0x1C..0x1F, and the space.
\<close>

definition whitespace :: string where
  "whitespace = [CHR 0x09, CHR 0x0A, CHR 0x0B, CHR 0x0C, CHR 0x0D,
                 CHR 0x1C, CHR 0x1D, CHR 0x1E, CHR 0x1F, CHR '' '']"

definition is_space :: "char \<Rightarrow> bool" where
  "is_space c \<longleftrightarrow> c \<in> set whitespace"

definition is_lower :: "char \<Rightarrow> bool" where
  "is_lower c \<longleftrightarrow> c \<in> set ascii_lowercase"

definition is_upper :: "char \<Rightarrow> bool" where
  "is_upper c \<longleftrightarrow> c \<in> set ascii_uppercase"

definition is_letter :: "char \<Rightarrow> bool" where
  "is_letter c \<longleftrightarrow> is_lower c \<or> is_upper c"

definition to_lower :: "char \<Rightarrow> char" where
  "to_lower c = (case map_of (zip ascii_uppercase ascii_lowercase) c of
                   Some l \<Rightarrow> l | None \<Rightarrow> c)"

definition to_upper :: "char \<Rightarrow> char" where
  "to_upper c = (case map_of (zip ascii_lowercase ascii_uppercase) c of
                   Some u \<Rightarrow> u | None \<Rightarrow> c)"

subsection \<open>String methods\<close>

definition lower :: "string \<Rightarrow> string" where
  "lower s = map to_lower s"

definition lstrip :: "string \<Rightarrow> string" where
  "lstrip s = dropWhile is_space s"

definition rstrip :: "string \<Rightarrow> string" where
  "rstrip s = rev (dropWhile is_space (rev s))"

definition strip :: "string \<Rightarrow> string" where
  "strip s = rstrip (lstrip s)"

text \<open>
  \<open>str.title()\<close>: a letter that follows a letter is lowercased, any other letter is
  uppercased; the flag says whether the previous character was a letter.
\<close>

fun title_from :: "bool \<Rightarrow> string \<Rightarrow> string" where
  "title_from prev [] = []"
| "title_from prev (c # cs) =
     (if is_letter c
      then (if prev then to_lower c else to_upper c) # title_from True cs
      else c # title_from False cs)"

definition title :: "string \<Rightarrow> string" where
  "title s = title_from False s"

text \<open>\<open>s.replace(a, b)\<close> for single characters \<open>a\<close> and \<open>b\<close>.\<close>

definition replace_char :: "char \<Rightarrow> char \<Rightarrow> string \<Rightarrow> string" where
  "replace_char a b s = map (\<lambda>c. if c = a then b else c) s"

text \<open>
  \<open>str.split()\<close> without arguments: the maximal runs of non-whitespace characters.
  The first argument is the word being read.
\<close>

fun split_from :: "string \<Rightarrow> string \<Rightarrow> string list" where
  "split_from w [] = (if w = [] then [] else [w])"
| "split_from w (c # cs) =
     (if is_space c then (if w = [] then split_from [] cs else w # split_from [] cs)
      else split_from (w @ [c]) cs)"

definition split :: "string \<Rightarrow> string list" where
  "split s = split_from [] s"

text \<open>\<open>sep.join(xs)\<close>.\<close>

fun join :: "string \<Rightarrow> string list \<Rightarrow> string" where
  "join sep [] = []"
| "join sep [x] = x"
| "join sep (x # y # ys) = x @ sep @ join sep (y # ys)"

subsection \<open>The text normalizer \<open>clean_text\<close>\<close>

text \<open>\<open>re.sub(r'[^a-zA-Z\s]', '', text)\<close>: every character that is neither a letter nor
  whitespace is deleted.\<close>

definition keep_letters_spaces :: "string \<Rightarrow> string" where
  "keep_letters_spaces s = filter (\<lambda>c. is_letter c \<or> is_space c) s"

text \<open>\<open>re.sub(r'\s+', ' ', text)\<close>: every maximal run of whitespace becomes one space.
  The flag says whether the previous character was whitespace (its run has already
  been replaced).\<close>

fun collapse_from :: "bool \<Rightarrow> string \<Rightarrow> string" where
  "collapse_from prev [] = []"
| "collapse_from prev (c # cs) =
     (if is_space c
      then (if prev then collapse_from True cs else CHR '' '' # collapse_from True cs)
      else c # collapse_from False cs)"

definition collapse_spaces :: "string \<Rightarrow> string" where
  "collapse_spaces s = collapse_from False s"

definition clean_text :: "string \<Rightarrow> string" where
  "clean_text text =
     (if text = [] \<or> length (strip text) < 10 then []
      else strip (collapse_spaces (keep_letters_spaces (lower text))))"

subsection \<open>Topic labels \<open>make_topic_label\<close>\<close>

definition normalize :: "string \<Rightarrow> string" where
  "normalize word = title (strip (replace_char (CHR ''_'') (CHR '' '') word))"

text \<open>The words are a \<open>List[str]\<close>, so \<open>isinstance(w, str)\<close> holds for each of them;
  \<open>w.strip()\<close> is true when it is not empty.\<close>

definition cleaned_words :: "string list \<Rightarrow> string list" where
  "cleaned_words words = map normalize (filter (\<lambda>w. strip w \<noteq> []) words)"

definition make_topic_label :: "string list \<Rightarrow> string" where
  "make_topic_label words =
     (let cleaned = cleaned_words words in
      if length cleaned = 2 then cleaned ! 0 @ '' and '' @ cleaned ! 1
      else if length cleaned = 3
        then cleaned ! 0 @ '', '' @ cleaned ! 1 @ '', and '' @ cleaned ! 2
      else if length cleaned = 1 then cleaned ! 0
      else join '' '' cleaned)"


subsection \<open>Decimal rendering of a count in an f-string\<close>

definition digit :: "nat \<Rightarrow> char" where
  "digit d = ''0123456789'' ! d"

fun str_nat :: "nat \<Rightarrow> string" where
  "str_nat n = (if n < 10 then [digit n] else str_nat (n div 10) @ [digit (n mod 10)])"

declare str_nat.simps [simp del]

section \<open>The relational store\<close>

text \<open>
  The store has the six tables the SQL statements of the sources name, with the columns
  those statements use. A table is the list of its rows, in the order the engine scans
  them. The schema itself (types, keys) is not among the sources: texts are taken as
  non-null strings, confidences and relevances as rationals, and the unique keys are
  those the spec lists in its data model.
\<close>

record brand_row =
  brand_id :: nat
  brand_name :: string

record phone_row =
  phone_id :: nat
  p_brand_id :: nat
  phone_name :: string

record review_row =
  review_id :: nat
  r_phone_id :: nat
  review_text :: string

record sentiment_row =
  sentiment_id :: nat
  s_review_id :: nat
  sentiment_label :: string
  sentiment_score :: rat

record topic_row =
  topic_id :: nat
  t_phone_id :: nat
  topic_label :: string
  representative_terms :: "(string \<times> rat) list"

record review_topic_row =
  rt_review_id :: nat
  rt_topic_id :: nat
  relevance_score :: rat

record db =
  brands :: "brand_row list"
  phones :: "phone_row list"
  reviews :: "review_row list"
  sentiments :: "sentiment_row list"
  topics :: "topic_row list"
  review_topics :: "review_topic_row list"

definition empty_db :: db where
  "empty_db = \<lparr>brands = [], phones = [], reviews = [], sentiments = [], topics = [],
                review_topics = []\<rparr>"

text \<open>An \<open>AUTO_INCREMENT\<close> key: a fresh identifier, 1 in an empty table.\<close>

definition next_id :: "nat list \<Rightarrow> nat" where
  "next_id ids = Suc (fold max ids 0)"

text \<open>What the source raises, as values.\<close>

datatype exn = TypeError | IndexError | ValueError | Error string

datatype http_error = HTTPException nat string

text \<open>\<open>cursor.fetchone()\<close>: the first row of the result, or \<open>None\<close>.\<close>

definition fetchone :: "'a list \<Rightarrow> 'a option" where
  "fetchone rows = (case rows of [] \<Rightarrow> None | r # _ \<Rightarrow> Some r)"


section \<open>CSV import (import\_csv.py)\<close>

text \<open>
  \<open>pd.read_csv(csv_path, dtype=str).fillna('')\<close> is the caller's CSV parser; the import
  starts from the data frame, one triple of strings
  \<open>(brand_name, phone_name, review_text)\<close> per row.
\<close>

type_synonym csv_row = "string \<times> string \<times> string"

text \<open>Modelled from the spec: the unique key \<open>brand_name\<close> of table \<open>brands\<close>, whose
  schema is not in the sources; \<open>INSERT IGNORE\<close> adds no row when the key exists.\<close>

definition insert_ignore_brand :: "db \<Rightarrow> string \<Rightarrow> db" where
  "insert_ignore_brand d name =
     (if name \<in> set (map brand_name (brands d)) then d
      else d\<lparr>brands := brands d @
             [\<lparr>brand_id = next_id (map brand_id (brands d)), brand_name = name\<rparr>]\<rparr>)"

definition select_brand_id :: "db \<Rightarrow> string \<Rightarrow> nat option" where
  "select_brand_id d name =
     map_option brand_id (fetchone (filter (\<lambda>b. brand_name b = name) (brands d)))"

text \<open>Modelled from the spec: the unique key \<open>(brand_id, phone_name)\<close> of table
  \<open>phones\<close>, whose schema is not in the sources.\<close>

definition insert_ignore_phone :: "db \<Rightarrow> nat \<Rightarrow> string \<Rightarrow> db" where
  "insert_ignore_phone d bid name =
     (if (bid, name) \<in> set (map (\<lambda>p. (p_brand_id p, phone_name p)) (phones d)) then d
      else d\<lparr>phones := phones d @
             [\<lparr>phone_id = next_id (map phone_id (phones d)), p_brand_id = bid,
               phone_name = name\<rparr>]\<rparr>)"

definition select_phone_id :: "db \<Rightarrow> nat \<Rightarrow> string \<Rightarrow> nat option" where
  "select_phone_id d bid name =
     map_option phone_id
       (fetchone (filter (\<lambda>p. p_brand_id p = bid \<and> phone_name p = name) (phones d)))"

definition insert_review :: "db \<Rightarrow> nat \<Rightarrow> string \<Rightarrow> db" where
  "insert_review d pid txt =
     d\<lparr>reviews := reviews d @
        [\<lparr>review_id = next_id (map review_id (reviews d)), r_phone_id = pid,
          review_text = txt\<rparr>]\<rparr>"

text \<open>The state of the import loop: the store and the two caches.\<close>

record import_state =
  i_db :: db
  brands_map :: "string \<rightharpoonup> nat"
  phones_map :: "nat \<times> string \<rightharpoonup> nat"

text \<open>The caches are dict comprehensions over the tables: a later row overrides an
  earlier one with the same key.\<close>

definition load_caches :: "db \<Rightarrow> import_state" where
  "load_caches d =
     \<lparr>i_db = d,
      brands_map = fold (\<lambda>b m. m(brand_name b \<mapsto> brand_id b)) (brands d) Map.empty,
      phones_map = fold (\<lambda>p m. m((p_brand_id p, phone_name p) \<mapsto> phone_id p)) (phones d)
                     Map.empty\<rparr>"

text \<open>\<open>cursor.fetchone()[0]\<close> raises \<open>TypeError\<close> when the select finds no row.\<close>

definition get_or_create_brand :: "import_state \<Rightarrow> string \<Rightarrow> exn + import_state \<times> nat" where
  "get_or_create_brand st brand =
     (case brands_map st brand of
        Some bid \<Rightarrow> Inr (st, bid)
      | None \<Rightarrow>
          (let d = insert_ignore_brand (i_db st) brand in
           case select_brand_id d brand of
             None \<Rightarrow> Inl TypeError
           | Some bid \<Rightarrow>
               Inr (st\<lparr>i_db := d, brands_map := (brands_map st)(brand \<mapsto> bid)\<rparr>, bid)))"

definition get_or_create_phone ::
  "import_state \<Rightarrow> nat \<Rightarrow> string \<Rightarrow> exn + import_state \<times> nat" where
  "get_or_create_phone st bid phone =
     (case phones_map st (bid, phone) of
        Some pid \<Rightarrow> Inr (st, pid)
      | None \<Rightarrow>
          (let d = insert_ignore_phone (i_db st) bid phone in
           case select_phone_id d bid phone of
             None \<Rightarrow> Inl TypeError
           | Some pid \<Rightarrow>
               Inr (st\<lparr>i_db := d, phones_map := (phones_map st)((bid, phone) \<mapsto> pid)\<rparr>,
                    pid)))"

text \<open>One iteration of \<open>for idx, row in df.iterrows()\<close>.\<close>

definition import_row :: "import_state \<Rightarrow> csv_row \<Rightarrow> exn + import_state" where
  "import_row st row =
     (case row of (b, p, r) \<Rightarrow>
        (let brand = strip b; phone = strip p; review = strip r in
         if brand = [] \<or> phone = [] \<or> review = [] then Inr st
         else
           (case get_or_create_brand st brand of
              Inl e \<Rightarrow> Inl e
            | Inr (st1, bid) \<Rightarrow>
                (case get_or_create_phone st1 bid phone of
                   Inl e \<Rightarrow> Inl e
                 | Inr (st2, pid) \<Rightarrow>
                     Inr (st2\<lparr>i_db := insert_review (i_db st2) pid review\<rparr>)))))"

fun import_rows :: "import_state \<Rightarrow> csv_row list \<Rightarrow> exn + import_state" where
  "import_rows st [] = Inr st"
| "import_rows st (row # rows) =
     (case import_row st row of Inl e \<Rightarrow> Inl e | Inr st' \<Rightarrow> import_rows st' rows)"

definition import_csv :: "csv_row list \<Rightarrow> db \<Rightarrow> exn + db" where
  "import_csv df d =
     (case import_rows (load_caches d) df of Inl e \<Rightarrow> Inl e | Inr st \<Rightarrow> Inr (i_db st))"


section \<open>Sentiment (ml\_api.py)\<close>

text \<open>
  The pretrained classifier is a parameter: \<open>sentiment_model(text)[0]\<close> gives a label
  and a score, or raises. Scores are rationals, and the literal \<open>0.7\<close> is the rational
  7/10.
\<close>

type_synonym classifier = "string \<Rightarrow> exn + string \<times> rat"


text \<open>The remapping of \<open>run_sentiment_analysis\<close>, written a second time in the source.\<close>

definition remap_run_sentiment :: "string \<Rightarrow> rat \<Rightarrow> string" where
  "remap_run_sentiment result_label score =
     (let label = lower result_label in
      if label = ''positive'' \<and> score < 7 / 10 then ''neutral''
      else if label = ''negative'' \<and> score < 7 / 10 then ''neutral''
      else label)"

subsection \<open>Single-text analysis\<close>







subsection \<open>The bulk sentiment pass\<close>

text \<open>Modelled from the spec: the unique key \<open>review_id\<close> of table \<open>sentiments\<close>, whose
  schema is not in the sources; \<open>ON DUPLICATE KEY UPDATE\<close> overwrites label and score.\<close>

definition upsert_sentiment :: "db \<Rightarrow> nat \<Rightarrow> string \<Rightarrow> rat \<Rightarrow> db" where
  "upsert_sentiment d rid lab sc =
     (if rid \<in> set (map s_review_id (sentiments d))
      then d\<lparr>sentiments :=
               map (\<lambda>s. if s_review_id s = rid
                         then s\<lparr>sentiment_label := lab, sentiment_score := sc\<rparr> else s)
                   (sentiments d)\<rparr>
      else d\<lparr>sentiments := sentiments d @
               [\<lparr>sentiment_id = next_id (map sentiment_id (sentiments d)),
                 s_review_id = rid, sentiment_label = lab, sentiment_score = sc\<rparr>]\<rparr>)"

text \<open>The reviews without a sentiment row (\<open>LEFT JOIN ... WHERE s.review_id IS NULL\<close>).
  The query has no \<open>ORDER BY\<close>: the rows come in the order of the table.\<close>

definition unprocessed_reviews :: "db \<Rightarrow> review_row list" where
  "unprocessed_reviews d =
     filter (\<lambda>r. review_id r \<notin> set (map s_review_id (sentiments d))) (reviews d)"

record sentiment_state =
  s_db :: db
  processed :: nat
  errors :: nat

text \<open>One iteration of \<open>for review in reviews\<close>, with its \<open>try\<close>/\<open>except\<close>.\<close>

definition sentiment_step :: "classifier \<Rightarrow> sentiment_state \<Rightarrow> review_row \<Rightarrow> sentiment_state" where
  "sentiment_step model st review =
     (let text = review_text review in
      if length (strip text) < 10 then st
      else (case model text of
              Inl e \<Rightarrow> st\<lparr>errors := errors st + 1\<rparr>
            | Inr (result_label, score) \<Rightarrow>
                st\<lparr>s_db := upsert_sentiment (s_db st) (review_id review)
                             (remap_run_sentiment result_label score) score,
                   processed := processed st + 1\<rparr>))"

record sentiment_report =
  sr_processed :: nat
  sr_errors :: nat
  sr_total_reviews :: nat

definition run_sentiment_analysis ::
  "classifier option \<Rightarrow> db \<Rightarrow> http_error + sentiment_report \<times> db" where
  "run_sentiment_analysis sentiment_model d =
     (case sentiment_model of
        None \<Rightarrow> Inl (HTTPException 500 ''Sentiment model not loaded'')
      | Some model \<Rightarrow>
          (let revs = take 10000 (unprocessed_reviews d);
               st = foldl (sentiment_step model) \<lparr>s_db = d, processed = 0, errors = 0\<rparr> revs
           in Inr (\<lparr>sr_processed = processed st, sr_errors = errors st,
                     sr_total_reviews = length revs\<rparr>, s_db st)))"

text \<open>The store after \<open>n\<close> passes in a row.\<close>

fun sentiment_passes :: "classifier \<Rightarrow> nat \<Rightarrow> db \<Rightarrow> db" where
  "sentiment_passes model 0 d = d"
| "sentiment_passes model (Suc n) d =
     (case run_sentiment_analysis (Some model) d of
        Inl e \<Rightarrow> d
      | Inr (report, d') \<Rightarrow> sentiment_passes model n d')"

section \<open>Star ratings (db\_api.py)\<close>

definition compute_star_rating_from_positive_percentage :: "rat \<Rightarrow> rat" where
  "compute_star_rating_from_positive_percentage positive_percentage =
     (if positive_percentage \<ge> 80 then 5
      else if positive_percentage \<ge> 60 then 4
      else if positive_percentage \<ge> 40 then 3
      else if positive_percentage \<ge> 20 then 2
      else 1)"

text \<open>The sentiment rows of a phone's reviews: \<open>sentiments s JOIN reviews r ON
  s.review_id = r.review_id WHERE r.phone_id = phone_id\<close>.\<close>

definition phone_sentiments :: "db \<Rightarrow> nat \<Rightarrow> sentiment_row list" where
  "phone_sentiments d pid =
     concat (map (\<lambda>s. map (\<lambda>r. s)
                    (filter (\<lambda>r. review_id r = s_review_id s \<and> r_phone_id r = pid) (reviews d)))
                 (sentiments d))"

text \<open>
  The \<open>star_rating\<close> column of the listing and search queries (\<open>get_phones\<close>,
  \<open>search_phones\<close>), from the two \<open>COUNT(DISTINCT ...)\<close> of the group: the number of
  positive sentiment rows and the number of sentiment rows.
\<close>

definition sql_star_rating :: "nat \<Rightarrow> nat \<Rightarrow> rat" where
  "sql_star_rating n_positive n_total =
     (if n_total = 0 then 3
      else if of_nat n_positive * 100 / of_nat n_total \<ge> (80::rat) then 5
      else if of_nat n_positive * 100 / of_nat n_total \<ge> (60::rat) then 4
      else if of_nat n_positive * 100 / of_nat n_total \<ge> (40::rat) then 3
      else if of_nat n_positive * 100 / of_nat n_total \<ge> (20::rat) then 2
      else 1)"

definition get_phones_star_rating :: "db \<Rightarrow> nat \<Rightarrow> rat" where
  "get_phones_star_rating d pid =
     (let rows = phone_sentiments d pid in
      sql_star_rating
        (length (remdups (map sentiment_id
           (filter (\<lambda>s. sentiment_label s = ''positive'') rows))))
        (length (remdups (map sentiment_id rows))))"

text \<open>
  \<open>get_sentiments\<close>: one entry per label of the phone's sentiment rows, with its count
  and its percentage \<open>round((count / total_reviews) * 100, 1)\<close>. The float arithmetic
  of the percentage is a parameter \<open>pct count total\<close>.
\<close>

record sentiment_entry =
  count :: nat
  percentage :: rat

record sentiment_summary =
  total_reviews :: nat
  by_label :: "string \<rightharpoonup> sentiment_entry"

definition get_sentiments :: "(nat \<Rightarrow> nat \<Rightarrow> rat) \<Rightarrow> db \<Rightarrow> nat \<Rightarrow> sentiment_summary" where
  "get_sentiments pct d pid =
     (let rows = phone_sentiments d pid;
          n_total = length rows;
          entry = (\<lambda>l. let n = length (filter (\<lambda>s. sentiment_label s = l) rows)
                        in \<lparr>count = n, percentage = (if n_total > 0 then pct n n_total else 0)\<rparr>)
      in \<lparr>total_reviews = n_total,
          by_label = map_of (map (\<lambda>l. (l, entry l)) (remdups (map sentiment_label rows)))\<rparr>)"

text \<open>\<open>sentiments.get("sentiments", {}).get("positive", {}).get("percentage", 0.0) or
  0.0\<close>.\<close>

definition positive_percentage :: "sentiment_summary \<Rightarrow> rat" where
  "positive_percentage summary =
     (case by_label summary ''positive'' of None \<Rightarrow> 0 | Some e \<Rightarrow> percentage e)"

record complete_view =
  cv_phone :: phone_row
  cv_star_rating :: rat
  cv_sentiments :: sentiment_summary

text \<open>\<open>get_complete_phone_data\<close>, without the review and topic lists it also returns.
  (When \<open>get_sentiments\<close> raises, the source goes on with an empty summary, which is
  also the summary of a phone without sentiment rows.)\<close>

definition get_complete_phone_data ::
  "(nat \<Rightarrow> nat \<Rightarrow> rat) \<Rightarrow> db \<Rightarrow> nat \<Rightarrow> http_error + complete_view" where
  "get_complete_phone_data pct d pid =
     (case fetchone (filter (\<lambda>p. phone_id p = pid) (phones d)) of
        None \<Rightarrow> Inl (HTTPException 404 ''Phone not found'')
      | Some phone \<Rightarrow>
          (let summary = get_sentiments pct d pid;
               star_rating =
                 compute_star_rating_from_positive_percentage (positive_percentage summary)
           in Inr \<lparr>cv_phone = phone, cv_star_rating = star_rating,
                   cv_sentiments = summary\<rparr>))"


section \<open>The per-phone topic pass (ml\_api.py)\<close>

subsection \<open>The topic-modeling library\<close>

text \<open>
  The vectorizer and model parameters that \<open>create_topic_model\<close> computes (the constant
  ones, \<open>stop_words='english'\<close>, \<open>max_features=500\<close> and
  \<open>calculate_probabilities=True\<close>, are left out).
\<close>

record fit_config =
  ngram_range :: "nat \<times> nat"
  cfg_min_df :: nat
  cfg_max_df :: rat
  nr_topics :: nat
  min_topic_size :: nat

definition create_topic_model :: "nat \<Rightarrow> nat \<times> nat \<Rightarrow> nat \<Rightarrow> rat \<Rightarrow> fit_config" where
  "create_topic_model n_docs ngram min_df max_df =
     \<lparr>ngram_range = ngram, cfg_min_df = min_df, cfg_max_df = max_df,
      nr_topics = min 8 (max 3 (n_docs div 10)),
      min_topic_size = max 5 (n_docs div 20)\<rparr>"

text \<open>
  What \<open>fit_transform\<close> gives: the topic of every document, the probabilities
  (\<open>None\<close>, a one-dimensional array, or a matrix with one row per document), and the
  fitted model's \<open>get_topic\<close> (the empty list stands for its \<open>False\<close>).
\<close>

datatype probs_t = NoProbs | Vector "rat list" | Matrix "rat list list"

record fit_out =
  doc_topics :: "int list"
  probs :: probs_t
  get_topic :: "int \<Rightarrow> (string \<times> rat) list"

text \<open>
  The library is a parameter. A call builds the model with a configuration and fits it
  to the documents; it gives a result or raises (with a message), and may depend on the
  calls made before it.
\<close>

type_synonym fit_call = "fit_config \<times> string list"

type_synonym topic_model = "fit_call list \<Rightarrow> fit_config \<Rightarrow> string list \<Rightarrow> string + fit_out"

subsection \<open>Relevance of a document for a topic\<close>

text \<open>\<open>probs.shape[1]\<close>.\<close>

definition shape1 :: "rat list list \<Rightarrow> nat" where
  "shape1 m = (case m of [] \<Rightarrow> 0 | row # _ \<Rightarrow> length row)"

text \<open>\<open>probs[i]\<close> for an index \<open>i\<close> of \<open>enumerate\<close>.\<close>

definition np_row :: "rat list list \<Rightarrow> nat \<Rightarrow> exn + rat list" where
  "np_row m i = (if i < length m then Inr (m ! i) else Inl IndexError)"

text \<open>\<open>row[j]\<close>: a negative index counts from the end.\<close>

definition np_at :: "rat list \<Rightarrow> int \<Rightarrow> exn + rat" where
  "np_at row j =
     (let n = int (length row); k = (if j < 0 then j + n else j)
      in if 0 \<le> k \<and> k < n then Inr (row ! nat k) else Inl IndexError)"

text \<open>\<open>row.max()\<close>: raises \<open>ValueError\<close> on an empty row.\<close>

definition np_max :: "rat list \<Rightarrow> exn + rat" where
  "np_max row = (case row of [] \<Rightarrow> Inl ValueError | x # xs \<Rightarrow> Inr (fold max xs x))"

text \<open>The score of document \<open>i\<close> for topic \<open>topic_id\<close>; \<open>len(getattr(probs, "shape",
  [])) > 1\<close> holds for a matrix only.\<close>

definition relevance :: "probs_t \<Rightarrow> nat \<Rightarrow> int \<Rightarrow> exn + rat" where
  "relevance p i tid =
     (case p of
        Matrix m \<Rightarrow>
          (if tid < int (shape1 m)
           then (case np_row m i of Inl e \<Rightarrow> Inl e | Inr row \<Rightarrow> np_at row tid)
           else (case np_row m i of Inl e \<Rightarrow> Inl e | Inr row \<Rightarrow> np_max row))
      | _ \<Rightarrow> Inr (1 / 2))"

subsection \<open>Persisting topics and associations\<close>

text \<open>Modelled from the spec: the unique key \<open>(phone_id, topic_label)\<close> of table
  \<open>topics\<close>, whose schema is not in the sources. The result is the store and
  \<open>cursor.lastrowid\<close>, which is 0 when no row was inserted. The representative terms
  are kept as the pairs they are rendered from.\<close>

definition insert_ignore_topic ::
  "db \<Rightarrow> nat \<Rightarrow> string \<Rightarrow> (string \<times> rat) list \<Rightarrow> db \<times> nat" where
  "insert_ignore_topic d pid lab terms =
     (if (pid, lab) \<in> set (map (\<lambda>t. (t_phone_id t, topic_label t)) (topics d)) then (d, 0)
      else (let new_id = next_id (map topic_id (topics d))
            in (d\<lparr>topics := topics d @
                    [\<lparr>topic_id = new_id, t_phone_id = pid, topic_label = lab,
                      representative_terms = terms\<rparr>]\<rparr>, new_id)))"

definition select_topic_id :: "db \<Rightarrow> nat \<Rightarrow> string \<Rightarrow> nat option" where
  "select_topic_id d pid lab =
     map_option topic_id
       (fetchone (filter (\<lambda>t. t_phone_id t = pid \<and> topic_label t = lab) (topics d)))"

text \<open>Modelled from the spec: the unique key \<open>(review_id, topic_id)\<close> of table
  \<open>review_topics\<close>, whose schema is not in the sources.\<close>

definition insert_ignore_review_topic :: "db \<Rightarrow> nat \<Rightarrow> nat \<Rightarrow> rat \<Rightarrow> db" where
  "insert_ignore_review_topic d rid tid sc =
     (if (rid, tid) \<in> set (map (\<lambda>rt. (rt_review_id rt, rt_topic_id rt)) (review_topics d))
      then d
      else d\<lparr>review_topics := review_topics d @
               [\<lparr>rt_review_id = rid, rt_topic_id = tid, relevance_score = sc\<rparr>]\<rparr>)"

text \<open>
  \<open>for i, doc_topic in enumerate(topics)\<close>: one association row per document of the
  topic. An exception (an index out of range) ends the loop; the rows inserted before
  it stay. The result says whether the loop raised.
\<close>

fun link_reviews ::
  "probs_t \<Rightarrow> nat list \<Rightarrow> nat \<Rightarrow> int \<Rightarrow> (nat \<times> int) list \<Rightarrow> db \<Rightarrow> exn option \<times> db" where
  "link_reviews p review_ids topic_db_id tid [] d = (None, d)"
| "link_reviews p review_ids topic_db_id tid ((i, doc_topic) # rest) d =
     (if doc_topic = tid
      then (case relevance p i tid of
              Inl e \<Rightarrow> (Some e, d)
            | Inr score \<Rightarrow>
                (if i < length review_ids
                 then link_reviews p review_ids topic_db_id tid rest
                        (insert_ignore_review_topic d (review_ids ! i) topic_db_id score)
                 else (Some IndexError, d)))
      else link_reviews p review_ids topic_db_id tid rest d)"

text \<open>One iteration of \<open>for topic_id in unique_topics\<close>, with its \<open>try\<close>/\<open>except\<close>; the
  state is the store and \<open>topics_created\<close>.\<close>

definition process_topic ::
  "nat \<Rightarrow> nat list \<Rightarrow> fit_out \<Rightarrow> db \<times> nat \<Rightarrow> int \<Rightarrow> db \<times> nat" where
  "process_topic pid review_ids out st tid =
     (case st of (d, topics_created) \<Rightarrow>
        if tid = - 1 then st
        else (let topic_words = get_topic out tid in
          if topic_words = [] \<or> length topic_words < 3 then st
          else (let top = map fst (take 3 topic_words);
                    lab = make_topic_label top;
                    terms = take 5 topic_words;
                    (d1, lastrowid) = insert_ignore_topic d pid lab terms;
                    topic_db_id =
                      (if lastrowid = 0
                       then (case select_topic_id d1 pid lab of None \<Rightarrow> 0 | Some t \<Rightarrow> t)
                       else lastrowid)
                in if topic_db_id \<noteq> 0
                   then (case link_reviews (probs out) review_ids topic_db_id tid
                                (enumerate 0 (doc_topics out)) d1 of
                           (None, d2) \<Rightarrow> (d2, topics_created + 1)
                         | (Some e, d2) \<Rightarrow> (d2, topics_created))
                   else (d1, topics_created + 1))))"

subsection \<open>One phone\<close>

text \<open>The status marks of the result lines, U+274C and U+2705, as their UTF-8 bytes.\<close>

definition cross_mark :: string where
  "cross_mark = [CHR 0xE2, CHR 0x9D, CHR 0x8C]"

definition check_mark :: string where
  "check_mark = [CHR 0xE2, CHR 0x9C, CHR 0x85]"

text \<open>The state of the pass: the store, the result lines, and the calls made to the
  library so far.\<close>

record topic_state =
  t_db :: db
  results :: "string list"
  calls :: "fit_call list"

text \<open>
  The environment of the pass: the library, and the exception (if any) that the
  reviews query of a phone raises.
\<close>

record topic_env =
  fit_transform :: topic_model
  reviews_query_error :: "nat \<Rightarrow> string option"

text \<open>The cleaned reviews of at least 5 words, each with its review id (\<open>docs\<close> and
  \<open>review_ids\<close>).\<close>

definition clean_reviews :: "review_row list \<Rightarrow> (string \<times> nat) list" where
  "clean_reviews revs =
     map (\<lambda>r. (clean_text (review_text r), review_id r))
       (filter (\<lambda>r. let cleaned = clean_text (review_text r)
                     in cleaned \<noteq> [] \<and> length (split cleaned) \<ge> 5) revs)"

text \<open>The topics of a fitted model are processed in the order of \<open>set(topics)\<close>, here
  the order of first occurrence.\<close>

definition process_topics ::
  "nat \<Rightarrow> string \<Rightarrow> nat list \<Rightarrow> fit_out \<Rightarrow> topic_state \<Rightarrow> topic_state" where
  "process_topics pid name review_ids out st =
     (case foldl (process_topic pid review_ids out) (t_db st, 0) (remdups (doc_topics out)) of
        (d, topics_created) \<Rightarrow>
          st\<lparr>t_db := d,
             results := results st @
               [check_mark @ '' '' @ name @ '': '' @ str_nat topics_created @
                '' topics created'']\<rparr>)"

text \<open>One iteration of \<open>for phone in phones\<close>, with its \<open>try\<close>/\<open>except\<close> blocks.\<close>

definition phone_step :: "topic_env \<Rightarrow> topic_state \<Rightarrow> phone_row \<Rightarrow> topic_state" where
  "phone_step env st phone =
     (let pid = phone_id phone; name = phone_name phone in
      case reviews_query_error env pid of
        Some phone_error \<Rightarrow>
          st\<lparr>results := results st @ [cross_mark @ '' '' @ name @ '': '' @ phone_error]\<rparr>
      | None \<Rightarrow>
          (let revs = filter (\<lambda>r. r_phone_id r = pid) (reviews (t_db st));
               docs = map fst (clean_reviews revs);
               review_ids = map snd (clean_reviews revs)
           in if length docs < 10
              then st\<lparr>results := results st @
                        [''Skipped '' @ name @ '': only '' @ str_nat (length docs) @
                         '' clean reviews'']\<rparr>
              else (let n_docs = length docs in
                if n_docs < 5
                then st\<lparr>results := results st @
                          [''Skipped '' @ name @ '': only '' @ str_nat n_docs @
                           '' clean reviews (too few for topic modeling)'']\<rparr>
                else (let min_df = (if n_docs < 10 then 1 else if n_docs < 20 then 2 else 3);
                          max_df = (if n_docs < 10 then 1 else if n_docs < 20 then 9 / 10
                                    else 8 / 10);
                          primary = create_topic_model n_docs (1, 2) min_df max_df;
                          st1 = st\<lparr>calls := calls st @ [(primary, docs)]\<rparr>
                      in case fit_transform env (calls st) primary docs of
                           Inr out \<Rightarrow> process_topics pid name review_ids out st1
                         | Inl first_error \<Rightarrow>
                             (let retry = create_topic_model n_docs (1, 1) 1 1;
                                  st2 = st1\<lparr>calls := calls st1 @ [(retry, docs)]\<rparr>
                              in case fit_transform env (calls st1) retry docs of
                                   Inr out \<Rightarrow> process_topics pid name review_ids out st2
                                 | Inl retry_error \<Rightarrow>
                                     st2\<lparr>results := results st2 @
                                           [cross_mark @ '' '' @ name @
                                            '': Topic modeling failed completely'']\<rparr>)))))"

subsection \<open>The pass\<close>

definition review_count :: "db \<Rightarrow> nat \<Rightarrow> nat" where
  "review_count d pid = length (filter (\<lambda>r. r_phone_id r = pid) (reviews d))"

text \<open>The phones query: \<open>HAVING COUNT(r.review_id) >= 10 ORDER BY review_count DESC\<close>.
  Phones with the same count stay in the order of the table.\<close>

definition topic_phones :: "db \<Rightarrow> phone_row list" where
  "topic_phones d =
     sort_key (\<lambda>p. - int (review_count d (phone_id p)))
       (filter (\<lambda>p. review_count d (phone_id p) \<ge> 10) (phones d))"

record topic_report =
  phones_processed :: nat
  tr_results :: "string list"

text \<open>The loop over the phones of the query, from the store as it is and no result.\<close>

definition topic_loop :: "topic_env \<Rightarrow> db \<Rightarrow> topic_state" where
  "topic_loop env d =
     foldl (phone_step env) \<lparr>t_db = d, results = [], calls = []\<rparr> (topic_phones d)"

definition run_topic_modeling ::
  "bool \<Rightarrow> topic_env \<Rightarrow> db \<Rightarrow> http_error + topic_report \<times> topic_state" where
  "run_topic_modeling models_loaded env d =
     (if \<not> models_loaded then Inl (HTTPException 500 ''Topic modeling models not loaded'')
      else (let ps = topic_phones d; st = topic_loop env d
            in Inr (\<lparr>phones_processed = length ps, tr_results = results st\<rparr>, st)))"

section \<open>Notions used in the statements\<close>

text \<open>The normal form of the normalizer's output: lowercase letters and spaces only, no
  two whitespace characters in a row, none at either end.\<close>

definition normal_form :: "string \<Rightarrow> bool" where
  "normal_form s \<longleftrightarrow>
     (\<forall>c \<in> set s. is_lower c \<or> c = CHR '' '') \<and>
     (\<forall>xs a b ys. s = xs @ a # b # ys \<longrightarrow> \<not> (is_space a \<and> is_space b)) \<and>
     (s \<noteq> [] \<longrightarrow> \<not> is_space (hd s) \<and> \<not> is_space (last s))"

text \<open>A row of the data frame that has a brand, a phone and a review text.\<close>

definition complete_row :: "csv_row \<Rightarrow> bool" where
  "complete_row row = (case row of (b, p, r) \<Rightarrow> strip b \<noteq> [] \<and> strip p \<noteq> [] \<and> strip r \<noteq> [])"

text \<open>The review ids that have a sentiment row.\<close>

definition processed_ids :: "db \<Rightarrow> nat set" where
  "processed_ids d = set (map s_review_id (sentiments d))"

text \<open>The documents of a phone and their review ids, as \<open>phone_step\<close> computes them.\<close>

definition phone_docs :: "db \<Rightarrow> nat \<Rightarrow> string list" where
  "phone_docs d pid = map fst (clean_reviews (filter (\<lambda>r. r_phone_id r = pid) (reviews d)))"

definition phone_review_ids :: "db \<Rightarrow> nat \<Rightarrow> nat list" where
  "phone_review_ids d pid = map snd (clean_reviews (filter (\<lambda>r. r_phone_id r = pid) (reviews d)))"

text \<open>The two configurations that \<open>phone_step\<close> tries for a phone with \<open>n\<close> documents
  (\<open>n\<close> is at least 10 there).\<close>

definition primary_config :: "nat \<Rightarrow> fit_config" where
  "primary_config n =
     create_topic_model n (1, 2) (if n < 20 then 2 else 3) (if n < 20 then 9 / 10 else 8 / 10)"

definition retry_config :: "nat \<Rightarrow> fit_config" where
  "retry_config n = create_topic_model n (1, 1) 1 1"



section \<open>Concrete inputs\<close>

text \<open>The import scenario of the spec, and the store it leaves.\<close>

definition scenario_rows :: "csv_row list" where
  "scenario_rows =
     [(''BrandA'', ''PhoneX'', ''This phone is great and fast''),
      (''BrandA'', ''PhoneX'', '''')]"

definition scenario_store :: db where
  "scenario_store =
     \<lparr>brands = [\<lparr>brand_id = 1, brand_name = ''BrandA''\<rparr>],
      phones = [\<lparr>phone_id = 1, p_brand_id = 1, phone_name = ''PhoneX''\<rparr>],
      reviews = [\<lparr>review_id = 1, r_phone_id = 1,
                  review_text = ''This phone is great and fast''\<rparr>],
      sentiments = [], topics = [], review_topics = []\<rparr>"

text \<open>A store whose only review is shorter than 10 characters, and a classifier.\<close>

definition short_review_store :: db where
  "short_review_store =
     \<lparr>brands = [\<lparr>brand_id = 1, brand_name = ''BrandA''\<rparr>],
      phones = [\<lparr>phone_id = 1, p_brand_id = 1, phone_name = ''PhoneX''\<rparr>],
      reviews = [\<lparr>review_id = 1, r_phone_id = 1, review_text = ''Great!''\<rparr>],
      sentiments = [], topics = [], review_topics = []\<rparr>"

definition always_positive :: classifier where
  "always_positive text = Inr (''POSITIVE'', 99 / 100)"


definition zero_pct :: "nat \<Rightarrow> nat \<Rightarrow> rat" where
  "zero_pct n t = 0"

text \<open>Stores with one brand and phones whose reviews all have the same text.\<close>

definition reviews_of :: "nat \<Rightarrow> nat \<Rightarrow> nat \<Rightarrow> string \<Rightarrow> review_row list" where
  "reviews_of pid first n txt =
     map (\<lambda>i. \<lparr>review_id = first + i, r_phone_id = pid, review_text = txt\<rparr>) [0..<n]"

definition phone_x :: phone_row where
  "phone_x = \<lparr>phone_id = 1, p_brand_id = 1, phone_name = ''PhoneX''\<rparr>"

definition phone_y :: phone_row where
  "phone_y = \<lparr>phone_id = 2, p_brand_id = 1, phone_name = ''PhoneY''\<rparr>"

definition store_of :: "phone_row list \<Rightarrow> review_row list \<Rightarrow> db" where
  "store_of ps rs =
     \<lparr>brands = [\<lparr>brand_id = 1, brand_name = ''BrandA''\<rparr>], phones = ps, reviews = rs,
      sentiments = [], topics = [], review_topics = []\<rparr>"

text \<open>PhoneX with exactly 9 reviews, all usable.\<close>

definition nine_review_store :: db where
  "nine_review_store = store_of [phone_x] (reviews_of 1 1 9 ''The battery life is great!'')"

text \<open>PhoneX with 10 reviews, of which 9 are usable.\<close>

definition nine_clean_store :: db where
  "nine_clean_store =
     store_of [phone_x] (reviews_of 1 1 9 ''The battery life is great!'' @ reviews_of 1 10 1 ''Bad'')"

text \<open>PhoneX with 10 usable reviews.\<close>

definition ten_review_store :: db where
  "ten_review_store = store_of [phone_x] (reviews_of 1 1 10 ''The battery life is great!'')"

text \<open>PhoneX and PhoneY with 10 usable reviews each.\<close>

definition two_phone_store :: db where
  "two_phone_store =
     store_of [phone_x, phone_y]
       (reviews_of 1 1 10 ''The battery life is great!'' @
        reviews_of 2 11 10 ''The screen is bright and sharp'')"

text \<open>A fitted model that puts every document in topic 1, with a probability matrix of
  one column (topic 0 only).\<close>

definition three_words :: "int \<Rightarrow> (string \<times> rat) list" where
  "three_words t = [(''battery'', 1 / 2), (''battery life'', 1 / 3), (''screen'', 1 / 4)]"

definition narrow_out :: fit_out where
  "narrow_out = \<lparr>doc_topics = replicate 10 1, probs = Matrix (replicate 10 [2 / 5]),
                 get_topic = three_words\<rparr>"

definition narrow_fit :: topic_model where
  "narrow_fit history cfg docs = Inr narrow_out"

definition no_query_error :: "nat \<Rightarrow> string option" where
  "no_query_error pid = None"

definition narrow_env :: topic_env where
  "narrow_env = \<lparr>fit_transform = narrow_fit, reviews_query_error = no_query_error\<rparr>"

text \<open>A library that raises on its first two calls and works afterwards.\<close>

definition flaky_fit :: topic_model where
  "flaky_fit history cfg docs = (if length history < 2 then Inl ''boom'' else Inr narrow_out)"

definition flaky_env :: topic_env where
  "flaky_env = \<lparr>fit_transform = flaky_fit, reviews_query_error = no_query_error\<rparr>"


definition fresh_state :: "db \<Rightarrow> topic_state" where
  "fresh_state d = \<lparr>t_db = d, results = [], calls = []\<rparr>"

definition battery_docs :: "string list" where
  "battery_docs = replicate 10 ''the battery life is great''"


definition short_review :: review_row where
  "short_review = \<lparr>review_id = 1, r_phone_id = 1, review_text = ''Great!''\<rparr>"

section \<open>Properties of the text helpers\<close>

subsection \<open>Characters\<close>


lemmas char_defs = is_space_def whitespace_def is_lower_def is_upper_def is_letter_def
  ascii_lowercase_def ascii_uppercase_def to_lower_def to_upper_def

lemma to_lower_not_upper: "\<not> is_upper (to_lower c)"
  by (simp add: char_defs)

lemma to_lower_space: "is_space (to_lower c) \<longleftrightarrow> is_space c"
  by (simp add: char_defs)

lemma to_lower_fix: "\<not> is_upper c \<Longrightarrow> to_lower c = c"
  by (simp add: char_defs)

lemma lower_not_upper: "is_lower c \<Longrightarrow> \<not> is_upper c"
  by (auto simp add: char_defs)

lemma lower_not_space: "is_lower c \<Longrightarrow> \<not> is_space c"
  by (auto simp add: char_defs)

lemma space_not_upper: "is_space c \<Longrightarrow> \<not> is_upper c"
  by (auto simp add: char_defs)

lemma blank_is_space: "is_space (CHR '' '')"
  by (simp add: char_defs)

subsection \<open>Collapsing whitespace\<close>

lemma set_collapse_from:
  "c \<in> set (collapse_from p s) \<Longrightarrow> (c \<in> set s \<and> \<not> is_space c) \<or> c = CHR '' ''"
  by (induction s arbitrary: p) (auto split: if_splits)

lemma hd_collapse_from_True:
  "collapse_from True s = b # ys \<Longrightarrow> \<not> is_space b"
  by (induction s) (auto split: if_splits)

lemma collapse_from_no_double:
  "collapse_from p s = xs @ a # b # ys \<Longrightarrow> \<not> (is_space a \<and> is_space b)"
proof (induction s arbitrary: p xs)
  case Nil
  then show ?case by simp
next
  case (Cons c cs)
  show ?case
  proof (cases "is_space c")
    case True
    show ?thesis
    proof (cases p)
      case True
      with \<open>is_space c\<close> Cons.prems have "collapse_from True cs = xs @ a # b # ys" by simp
      then show ?thesis by (rule Cons.IH)
    next
      case False
      with \<open>is_space c\<close> Cons.prems
      have eq: "CHR '' '' # collapse_from True cs = xs @ a # b # ys" by simp
      show ?thesis
      proof (cases xs)
        case Nil
        with eq have "collapse_from True cs = b # ys" by simp
        then show ?thesis using hd_collapse_from_True by blast
      next
        case (Cons x xs')
        with eq have "collapse_from True cs = xs' @ a # b # ys" by simp
        then show ?thesis by (rule Cons.IH)
      qed
    qed
  next
    case False
    with Cons.prems have eq: "c # collapse_from False cs = xs @ a # b # ys" by simp
    show ?thesis
    proof (cases xs)
      case Nil
      with eq False show ?thesis by simp
    next
      case (Cons x xs')
      with eq have "collapse_from False cs = xs' @ a # b # ys" by simp
      then show ?thesis by (rule Cons.IH)
    qed
  qed
qed

subsection \<open>Stripping\<close>

lemma lstrip_suffix: "\<exists>pre. s = pre @ lstrip s"
  unfolding lstrip_def by (metis takeWhile_dropWhile_id)

lemma rstrip_prefix: "\<exists>post. s = rstrip s @ post"
proof -
  have "rev s = takeWhile is_space (rev s) @ dropWhile is_space (rev s)" by simp
  then have "s = rev (dropWhile is_space (rev s)) @ rev (takeWhile is_space (rev s))"
    by (metis rev_append rev_rev_ident)
  then show ?thesis unfolding rstrip_def by blast
qed

lemma strip_infix: "\<exists>pre post. s = pre @ strip s @ post"
proof -
  obtain pre where 1: "s = pre @ lstrip s" using lstrip_suffix by blast
  obtain post where 2: "lstrip s = rstrip (lstrip s) @ post" using rstrip_prefix by blast
  from 1 2 have "s = pre @ strip s @ post" unfolding strip_def by simp
  then show ?thesis by blast
qed

lemma set_strip: "set (strip s) \<subseteq> set s"
proof -
  obtain pre post where "s = pre @ strip s @ post" using strip_infix by blast
  then have "set s = set pre \<union> set (strip s) \<union> set post" by (metis set_append Un_assoc)
  then show ?thesis by blast
qed

lemma hd_lstrip: "lstrip s \<noteq> [] \<Longrightarrow> \<not> is_space (hd (lstrip s))"
  unfolding lstrip_def by (simp add: hd_dropWhile)

lemma last_rstrip: "rstrip s \<noteq> [] \<Longrightarrow> \<not> is_space (last (rstrip s))"
  unfolding rstrip_def by (simp add: last_rev hd_dropWhile)

lemma hd_rstrip: "rstrip s \<noteq> [] \<Longrightarrow> hd (rstrip s) = hd s"
proof -
  assume ne: "rstrip s \<noteq> []"
  obtain post where "s = rstrip s @ post" using rstrip_prefix by blast
  then have "hd s = hd (rstrip s @ post)" by simp
  with ne show ?thesis by simp
qed

lemma strip_ends:
  assumes "strip s \<noteq> []"
  shows "\<not> is_space (hd (strip s))" and "\<not> is_space (last (strip s))"
proof -
  from assms have ne: "rstrip (lstrip s) \<noteq> []" by (simp add: strip_def)
  then have "lstrip s \<noteq> []" by (auto simp: rstrip_def)
  then have "\<not> is_space (hd (lstrip s))" by (rule hd_lstrip)
  with hd_rstrip[OF ne] show "\<not> is_space (hd (strip s))" by (simp add: strip_def)
  from last_rstrip[OF ne] show "\<not> is_space (last (strip s))" by (simp add: strip_def)
qed

lemma strip_id:
  assumes "s \<noteq> [] \<longrightarrow> \<not> is_space (hd s) \<and> \<not> is_space (last s)"
  shows "strip s = s"
proof (cases "s = []")
  case True
  then show ?thesis by (simp add: strip_def lstrip_def rstrip_def)
next
  case False
  with assms have h: "\<not> is_space (hd s)" and l: "\<not> is_space (last s)" by auto
  from False h have 1: "lstrip s = s" by (cases s) (auto simp: lstrip_def)
  from False l have "dropWhile is_space (rev s) = rev s"
    by (cases "rev s") (auto simp: last_rev hd_rev)
  then have 2: "rstrip s = s" by (simp add: rstrip_def)
  from 1 2 show ?thesis by (simp add: strip_def)
qed


subsection \<open>The output of the normalizer\<close>

lemma set_keep_lower:
  "c \<in> set (keep_letters_spaces (lower t)) \<Longrightarrow> is_lower c \<or> is_space c"
proof -
  assume "c \<in> set (keep_letters_spaces (lower t))"
  then have 1: "c \<in> set (lower t)" and 2: "is_letter c \<or> is_space c"
    by (simp_all add: keep_letters_spaces_def)
  from 1 obtain d where "c = to_lower d" by (auto simp: lower_def)
  then have "\<not> is_upper c" by (simp add: to_lower_not_upper)
  with 2 show ?thesis by (auto simp: is_letter_def)
qed

lemma normal_form_pipeline:
  "normal_form (strip (collapse_spaces (keep_letters_spaces (lower t))))"
proof -
  let ?k = "keep_letters_spaces (lower t)"
  let ?c = "collapse_spaces ?k"
  have chars: "is_lower c \<or> c = CHR '' ''" if "c \<in> set (strip ?c)" for c
  proof -
    from that set_strip have "c \<in> set ?c" by blast
    then have "(c \<in> set ?k \<and> \<not> is_space c) \<or> c = CHR '' ''"
      unfolding collapse_spaces_def by (rule set_collapse_from)
    then show ?thesis using set_keep_lower by blast
  qed
  have nodbl: "\<not> (is_space a \<and> is_space b)" if "strip ?c = xs @ a # b # ys" for xs a b ys
  proof -
    obtain pre post where "?c = pre @ strip ?c @ post" using strip_infix by blast
    with that have "collapse_from False ?k = (pre @ xs) @ a # b # (ys @ post)"
      by (simp add: collapse_spaces_def)
    then show ?thesis by (rule collapse_from_no_double)
  qed
  have ends: "strip ?c \<noteq> [] \<longrightarrow> \<not> is_space (hd (strip ?c)) \<and> \<not> is_space (last (strip ?c))"
    using strip_ends by simp
  show ?thesis
    unfolding normal_form_def
  proof (intro conjI)
    show "\<forall>c\<in>set (strip ?c). is_lower c \<or> c = CHR '' ''" using chars by simp
    show "\<forall>xs a b ys. strip ?c = xs @ a # b # ys \<longrightarrow> \<not> (is_space a \<and> is_space b)"
      using nodbl by simp
    show "strip ?c \<noteq> [] \<longrightarrow> \<not> is_space (hd (strip ?c)) \<and> \<not> is_space (last (strip ?c))"
      by (rule ends)
  qed
qed

lemma normal_form_Nil: "normal_form []"
  by (simp add: normal_form_def)

lemma normal_form_clean_text: "normal_form (clean_text t)"
  by (simp add: clean_text_def normal_form_Nil normal_form_pipeline)

lemma lower_id: "\<forall>c \<in> set s. is_lower c \<or> c = CHR '' '' \<Longrightarrow> lower s = s"
proof -
  assume a: "\<forall>c \<in> set s. is_lower c \<or> c = CHR '' ''"
  have "to_lower c = c" if "c \<in> set s" for c
    using a that lower_not_upper space_not_upper blank_is_space to_lower_fix by blast
  then show ?thesis by (simp add: lower_def map_idI)
qed

lemma keep_id: "\<forall>c \<in> set s. is_lower c \<or> c = CHR '' '' \<Longrightarrow> keep_letters_spaces s = s"
proof -
  assume a: "\<forall>c \<in> set s. is_lower c \<or> c = CHR '' ''"
  have "is_letter c \<or> is_space c" if "c \<in> set s" for c
    using a that blank_is_space by (auto simp: is_letter_def)
  then show ?thesis by (simp add: keep_letters_spaces_def)
qed

lemma collapse_from_id:
  assumes "\<forall>c \<in> set s. is_space c \<longrightarrow> c = CHR '' ''"
    and "\<forall>xs a b ys. s = xs @ a # b # ys \<longrightarrow> \<not> (is_space a \<and> is_space b)"
    and "p \<longrightarrow> s = [] \<or> \<not> is_space (hd s)"
  shows "collapse_from p s = s"
  using assms
proof (induction s arbitrary: p)
  case Nil
  then show ?case by simp
next
  case (Cons c cs)
  have sub: "\<forall>xs a b ys. cs = xs @ a # b # ys \<longrightarrow> \<not> (is_space a \<and> is_space b)"
  proof (intro allI impI)
    fix xs a b ys assume "cs = xs @ a # b # ys"
    then have "c # cs = (c # xs) @ a # b # ys" by simp
    with Cons.prems(2) show "\<not> (is_space a \<and> is_space b)" by blast
  qed
  have chars: "\<forall>c \<in> set cs. is_space c \<longrightarrow> c = CHR '' ''" using Cons.prems(1) by simp
  show ?case
  proof (cases "is_space c")
    case True
    with Cons.prems(3) have np: "\<not> p" by simp
    from True Cons.prems(1) have c: "c = CHR '' ''" by simp
    have "cs = [] \<or> \<not> is_space (hd cs)"
    proof (cases cs)
      case Nil
      then show ?thesis by simp
    next
      case (Cons b ys)
      then have "c # cs = [] @ c # b # ys" by simp
      with Cons.prems(2) True have "\<not> is_space b" by blast
      with Cons show ?thesis by simp
    qed
    then have "collapse_from True cs = cs" using Cons.IH[OF chars sub] by blast
    with True np c show ?thesis by simp
  next
    case False
    have "collapse_from False cs = cs" using Cons.IH[OF chars sub] by blast
    with False show ?thesis by simp
  qed
qed

lemma clean_text_normal_form:
  assumes "normal_form s"
  shows "clean_text s = (if length s < 10 then [] else s)"
proof -
  from assms have chars: "\<forall>c \<in> set s. is_lower c \<or> c = CHR '' ''"
    and nodbl: "\<forall>xs a b ys. s = xs @ a # b # ys \<longrightarrow> \<not> (is_space a \<and> is_space b)"
    and ends: "s \<noteq> [] \<longrightarrow> \<not> is_space (hd s) \<and> \<not> is_space (last s)"
    by (auto simp: normal_form_def)
  have st: "strip s = s" using ends by (rule strip_id)
  have lo: "lower s = s" using chars by (rule lower_id)
  have ke: "keep_letters_spaces s = s" using chars by (rule keep_id)
  have "\<forall>c \<in> set s. is_space c \<longrightarrow> c = CHR '' ''" using chars lower_not_space by blast
  then have co: "collapse_spaces s = s"
    unfolding collapse_spaces_def using nodbl by (rule collapse_from_id) simp
  show ?thesis by (auto simp: clean_text_def st lo ke co)
qed


subsection \<open>Evaluations\<close>

lemmas strip_defs = strip_def lstrip_def rstrip_def

lemma clean_text_example_long:
  "clean_text ''Great Phone!! 10/10   would  BUY again '' = ''great phone would buy again''"
  by code_simp


lemma clean_text_example_digits: "clean_text ''Love it!!! 10/10'' = ''love it''"
  by code_simp

lemma clean_text_example_love: "clean_text ''love it'' = []"
  by code_simp

lemma label_example_one: "make_topic_label [''battery''] = ''Battery''"
  by code_simp

lemma normalize_examples:
  "normalize ''battery'' = ''Battery''" "normalize ''battery_life'' = ''Battery Life''"
  "normalize ''battery life'' = ''Battery Life''" "normalize ''screen'' = ''Screen''"
  "normalize ''camera'' = ''Camera''"
  by code_simp+

lemma strip_examples:
  "strip ''battery'' = ''battery''" "strip ''battery_life'' = ''battery_life''"
  "strip ''battery life'' = ''battery life''" "strip ''screen'' = ''screen''"
  "strip ''camera'' = ''camera''"
  by code_simp+


section \<open>The normalizer's output (claim C4)\<close>



section \<open>Normalizing twice (claim C3)\<close>

text \<open>
  Claim C3 as stated (normalizing an output of the normalizer returns it unchanged)
  fails: the length floor is applied to the input of every call, so an output shorter
  than 10 characters is mapped to the empty string by a second call. The input
  \<open>Love it!!! 10/10\<close> has 16 characters and is normalized to \<open>love it\<close>, which the
  normalizer then maps to the empty string.
\<close>

theorem clean_text_not_idempotent:
  "clean_text ''Love it!!! 10/10'' = ''love it'' \<and>
   clean_text (clean_text ''Love it!!! 10/10'') \<noteq> clean_text ''Love it!!! 10/10''"
  by (simp add: clean_text_example_digits clean_text_example_love)

text \<open>
  Claim C3, amended. For every string \<open>s\<close> that is an output of the normalizer,
  normalizing \<open>s\<close> returns \<open>s\<close> unchanged when \<open>s\<close> has at least 10 characters, and the
  empty string when \<open>s\<close> has fewer.
\<close>

theorem clean_text_twice:
  "clean_text (clean_text t) = (if length (clean_text t) < 10 then [] else clean_text t)"
  using normal_form_clean_text by (rule clean_text_normal_form)

theorem clean_text_twice_witness:
  "clean_text (clean_text ''Great Phone!! 10/10   would  BUY again '') =
     ''great phone would buy again'' \<and>
   clean_text (clean_text ''Love it!!! 10/10'') = []"
  using clean_text_twice [of "''Great Phone!! 10/10   would  BUY again ''"]
    clean_text_twice [of "''Love it!!! 10/10''"]
  by (simp add: clean_text_example_long clean_text_example_digits)

section \<open>Topic labels (claim C2)\<close>

text \<open>
  Claim C2 as stated fails for a single word: the word is not rendered unchanged, it is
  normalized first (underscores become spaces, surrounding whitespace is removed, and
  the result is title-cased), as the docstring of \<open>make_topic_label\<close> says.
\<close>

theorem make_topic_label_one_word_changed:
  "make_topic_label [''battery''] = ''Battery'' \<and> make_topic_label [''battery''] \<noteq> ''battery''"
  by (simp add: label_example_one)

text \<open>
  Claim C2, amended. Write \<open>X\<close>, \<open>Y\<close>, \<open>Z\<close> for the normalized forms of the words (an
  underscore becomes a space, surrounding whitespace is removed, every word is
  capitalized). For words that are not blank, one word is rendered as \<open>X\<close>, two words
  as \<open>X and Y\<close>, and three words as \<open>X, Y, and Z\<close>. Both the single-text and the batch
  topic extraction render their labels with this function.
\<close>

theorem make_topic_label_phrasing:
  "(strip x \<noteq> [] \<longrightarrow> make_topic_label [x] = normalize x) \<and>
   (strip x \<noteq> [] \<and> strip y \<noteq> [] \<longrightarrow>
      make_topic_label [x, y] = normalize x @ '' and '' @ normalize y) \<and>
   (strip x \<noteq> [] \<and> strip y \<noteq> [] \<and> strip z \<noteq> [] \<longrightarrow>
      make_topic_label [x, y, z] =
        normalize x @ '', '' @ normalize y @ '', and '' @ normalize z)"
  by (simp add: make_topic_label_def cleaned_words_def)

theorem make_topic_label_phrasing_witness:
  "make_topic_label [''battery''] = ''Battery'' \<and>
   make_topic_label [''battery_life'', ''screen''] = ''Battery Life and Screen'' \<and>
   make_topic_label [''battery life'', ''screen'', ''camera''] =
     ''Battery Life, Screen, and Camera''"
  using make_topic_label_phrasing [of "''battery''" "''screen''" "''camera''"]
    make_topic_label_phrasing [of "''battery_life''" "''screen''" "''camera''"]
    make_topic_label_phrasing [of "''battery life''" "''screen''" "''camera''"]
  by (simp add: normalize_examples strip_examples)

section \<open>The sentiment remapping (claim C5)\<close>







section \<open>Star ratings (claim C1)\<close>

lemma star_rating_breakpoints:
  "compute_star_rating_from_positive_percentage p =
     (if p \<ge> 80 then 5 else if p \<ge> 60 then 4 else if p \<ge> 40 then 3 else if p \<ge> 20 then 2 else 1)"
  by (simp add: compute_star_rating_from_positive_percentage_def)

lemma star_rating_mono:
  "p \<le> q \<Longrightarrow> compute_star_rating_from_positive_percentage p
     \<le> compute_star_rating_from_positive_percentage q"
  by (simp add: compute_star_rating_from_positive_percentage_def)

text \<open>
  Claim C1. The breakpoints are those of \<open>compute_star_rating_from_positive_percentage\<close>,
  and the listing and search queries give 3.0 to a phone without processed sentiments.
  The composite complete view does not: for a phone that exists and has no sentiment
  row, the summary of \<open>get_sentiments\<close> has no entry, the positive percentage falls
  back to 0.0, and the rating is 1.0, whatever the float arithmetic of the percentages.
\<close>

theorem complete_view_zero_sentiments:
  assumes "phone_sentiments d pid = []"
    and "fetchone (filter (\<lambda>p. phone_id p = pid) (phones d)) = Some ph"
  shows "map_sum id cv_star_rating (get_complete_phone_data pct d pid) = Inr 1 \<and>
         get_phones_star_rating d pid = 3"
  using assms
  by (simp add: get_complete_phone_data_def get_sentiments_def positive_percentage_def
      compute_star_rating_from_positive_percentage_def get_phones_star_rating_def
      sql_star_rating_def)

lemma scenario_no_sentiments: "phone_sentiments scenario_store 1 = []"
  by (simp add: phone_sentiments_def scenario_store_def)

lemma scenario_phone:
  "fetchone (filter (\<lambda>p. phone_id p = 1) (phones scenario_store)) =
     Some \<lparr>phone_id = 1, p_brand_id = 1, phone_name = ''PhoneX''\<rparr>"
  by (simp add: fetchone_def scenario_store_def)

theorem complete_view_zero_sentiments_witness:
  "map_sum id cv_star_rating (get_complete_phone_data zero_pct scenario_store 1) = Inr 1 \<and>
   get_phones_star_rating scenario_store 1 = 3"
  using complete_view_zero_sentiments [OF scenario_no_sentiments scenario_phone, of zero_pct]
  by simp

section \<open>CSV import (claim C8)\<close>

lemma import_row_skip:
  "strip b = [] \<or> strip p = [] \<or> strip r = [] \<Longrightarrow> import_row st (b, p, r) = Inr st"
  by (auto simp: import_row_def Let_def)

lemma import_rows_filter:
  "import_rows st df = import_rows st (filter complete_row df)"
proof (induction df arbitrary: st)
  case Nil
  then show ?case by simp
next
  case (Cons row df)
  obtain b p r where row: "row = (b, p, r)" by (cases row) auto
  show ?case
  proof (cases "complete_row row")
    case True
    then show ?thesis using Cons.IH by (simp split: sum.splits)
  next
    case False
    then have "import_row st row = Inr st"
      unfolding row by (intro import_row_skip) (auto simp: complete_row_def)
    with False show ?thesis using Cons.IH by simp
  qed
qed

lemma scenario_import: "import_csv scenario_rows empty_db = Inr scenario_store"
  by code_simp

lemma scenario_second_row:
  "strip '''' = []"
  by code_simp

lemma scenario_lengths:
  "length (brands scenario_store) = 1" "length (phones scenario_store) = 1"
  "length (reviews scenario_store) = 1"
  by (simp_all add: scenario_store_def)

text \<open>
  Claim C8. A row whose brand, phone or review text is empty after stripping leaves the
  state of the import as it is, so that importing a data frame is importing its complete
  rows; and importing the two rows of the scenario into the empty store gives the store
  with one brand, one phone and one review.
\<close>

theorem import_csv_skips_incomplete_rows:
  "(strip b = [] \<or> strip p = [] \<or> strip r = [] \<longrightarrow> import_row st (b, p, r) = Inr st) \<and>
   import_csv df d = import_csv (filter complete_row df) d \<and>
   import_csv scenario_rows empty_db = Inr scenario_store"
proof (intro conjI impI)
  show "import_row st (b, p, r) = Inr st" if "strip b = [] \<or> strip p = [] \<or> strip r = []"
    using that by (rule import_row_skip)
  show "import_csv df d = import_csv (filter complete_row df) d"
    unfolding import_csv_def using import_rows_filter [of "load_caches d" df] by simp
  show "import_csv scenario_rows empty_db = Inr scenario_store" by (rule scenario_import)
qed

theorem import_csv_skips_incomplete_rows_witness:
  "import_row (load_caches scenario_store) (''BrandA'', ''PhoneX'', '''') =
     Inr (load_caches scenario_store) \<and>
   length (brands scenario_store) = 1 \<and> length (phones scenario_store) = 1 \<and>
   length (reviews scenario_store) = 1 \<and>
   import_csv scenario_rows empty_db = Inr scenario_store"
proof -
  note w = import_csv_skips_incomplete_rows
    [where b = "''BrandA''" and p = "''PhoneX''" and r = "''''"
       and st = "load_caches scenario_store" and df = scenario_rows and d = empty_db]
  from w have 1: "import_row (load_caches scenario_store) (''BrandA'', ''PhoneX'', '''') =
      Inr (load_caches scenario_store)"
    by (simp add: scenario_second_row)
  from w have 2: "import_csv scenario_rows empty_db = Inr scenario_store" by blast
  from 1 2 show ?thesis by (simp add: scenario_lengths)
qed

section \<open>Short reviews in the bulk sentiment pass (claim C10)\<close>

lemma upsert_sentiment_reviews [simp]: "reviews (upsert_sentiment d rid lab sc) = reviews d"
  by (simp add: upsert_sentiment_def)

lemma upsert_sentiment_ids:
  "processed_ids (upsert_sentiment d rid lab sc) = insert rid (processed_ids d)"
proof (cases "rid \<in> set (map s_review_id (sentiments d))")
  case True
  have "s_review_id (if s_review_id s = rid
      then s\<lparr>sentiment_label := lab, sentiment_score := sc\<rparr> else s) = s_review_id s" for s
    by simp
  then have "map s_review_id (map (\<lambda>s. if s_review_id s = rid
      then s\<lparr>sentiment_label := lab, sentiment_score := sc\<rparr> else s) (sentiments d))
      = map s_review_id (sentiments d)"
    by (simp add: comp_def)
  with True show ?thesis
    by (auto simp: processed_ids_def upsert_sentiment_def)
next
  case False
  then show ?thesis
    by (auto simp: processed_ids_def upsert_sentiment_def)
qed

lemma sentiment_step_short:
  "length (strip (review_text r)) < 10 \<Longrightarrow> sentiment_step model st r = st"
  by (simp add: sentiment_step_def)

lemma sentiment_step_reviews:
  "reviews (s_db (sentiment_step model st r)) = reviews (s_db st)"
  by (simp add: sentiment_step_def Let_def split: sum.splits prod.splits)

lemma sentiment_step_ids:
  "processed_ids (s_db (sentiment_step model st r)) \<subseteq>
     processed_ids (s_db st) \<union> (if length (strip (review_text r)) < 10 then {} else {review_id r})"
  by (auto simp: sentiment_step_def Let_def upsert_sentiment_ids split: sum.splits prod.splits)

lemma foldl_sentiment_step_reviews:
  "reviews (s_db (foldl (sentiment_step model) st rs)) = reviews (s_db st)"
  by (induction rs arbitrary: st) (simp_all add: sentiment_step_reviews)

lemma foldl_sentiment_step_ids:
  "processed_ids (s_db (foldl (sentiment_step model) st rs)) \<subseteq>
     processed_ids (s_db st) \<union> {review_id r | r. r \<in> set rs \<and> \<not> length (strip (review_text r)) < 10}"
proof (induction rs arbitrary: st)
  case Nil
  then show ?case by simp
next
  case (Cons r rs)
  have "processed_ids (s_db (foldl (sentiment_step model) (sentiment_step model st r) rs)) \<subseteq>
      processed_ids (s_db (sentiment_step model st r)) \<union>
        {review_id r' | r'. r' \<in> set rs \<and> \<not> length (strip (review_text r')) < 10}"
    by (rule Cons.IH)
  moreover note sentiment_step_ids [of model st r]
  ultimately show ?case by (auto split: if_splits)
qed

lemma pass_result:
  "run_sentiment_analysis (Some model) d =
     Inr (\<lparr>sr_processed = processed (foldl (sentiment_step model) \<lparr>s_db = d, processed = 0, errors = 0\<rparr> (take 10000 (unprocessed_reviews d))),
           sr_errors = errors (foldl (sentiment_step model) \<lparr>s_db = d, processed = 0, errors = 0\<rparr> (take 10000 (unprocessed_reviews d))),
           sr_total_reviews = length (take 10000 (unprocessed_reviews d))\<rparr>,
          s_db (foldl (sentiment_step model) \<lparr>s_db = d, processed = 0, errors = 0\<rparr> (take 10000 (unprocessed_reviews d))))"
  by (simp add: run_sentiment_analysis_def Let_def)

lemma pass_keeps_short_unprocessed:
  assumes dist: "distinct (map review_id (reviews d))"
    and r: "r \<in> set (unprocessed_reviews d)"
    and short: "length (strip (review_text r)) < 10"
    and run: "run_sentiment_analysis (Some model) d = Inr (report, d')"
  shows "reviews d' = reviews d \<and> r \<in> set (unprocessed_reviews d')"
proof -
  let ?revs = "take 10000 (unprocessed_reviews d)"
  let ?st = "foldl (sentiment_step model) \<lparr>s_db = d, processed = 0, errors = 0\<rparr> ?revs"
  from run have d': "d' = s_db ?st" by (simp add: pass_result)
  have revs: "reviews d' = reviews d"
    unfolding d' by (simp add: foldl_sentiment_step_reviews)
  from r have rin: "r \<in> set (reviews d)" and rnot: "review_id r \<notin> processed_ids d"
    by (auto simp: unprocessed_reviews_def processed_ids_def)
  have "review_id r \<notin> processed_ids d'"
  proof
    assume "review_id r \<in> processed_ids d'"
    with foldl_sentiment_step_ids [of model "\<lparr>s_db = d, processed = 0, errors = 0\<rparr>" ?revs] rnot
    obtain r' where r': "r' \<in> set ?revs" "\<not> length (strip (review_text r')) < 10"
      "review_id r' = review_id r"
      unfolding d' by auto
    from r'(1) have "r' \<in> set (reviews d)"
      by (auto dest: in_set_takeD simp: unprocessed_reviews_def)
    with rin r'(3) dist have "r' = r"
      by (meson distinct_map inj_onD)
    with r'(2) short show False by simp
  qed
  with rin revs show ?thesis
    by (simp add: unprocessed_reviews_def processed_ids_def)
qed

lemma passes_keep_short_unprocessed:
  assumes "distinct (map review_id (reviews d))"
    and "r \<in> set (unprocessed_reviews d)"
    and "length (strip (review_text r)) < 10"
  shows "r \<in> set (unprocessed_reviews (sentiment_passes model n d))"
  using assms
proof (induction n arbitrary: d)
  case 0
  then show ?case by simp
next
  case (Suc n)
  obtain report d' where run: "run_sentiment_analysis (Some model) d = Inr (report, d')"
    by (simp add: pass_result)
  from pass_keeps_short_unprocessed [OF Suc.prems(1) Suc.prems(2) Suc.prems(3) run]
  have 1: "reviews d' = reviews d" and 2: "r \<in> set (unprocessed_reviews d')" by simp_all
  from 1 Suc.prems(1) have "distinct (map review_id (reviews d'))" by simp
  from Suc.IH [OF this 2 Suc.prems(3)] run show ?case by simp
qed

lemma short_review_pass:
  "run_sentiment_analysis (Some always_positive) short_review_store =
     Inr (\<lparr>sr_processed = 0, sr_errors = 0, sr_total_reviews = 1\<rparr>, short_review_store)"
  by code_simp

text \<open>
  Claim C10. A fetched review whose stripped text has fewer than 10 characters leaves
  the state of the pass as it is, whatever the classifier: it is not classified, and
  neither counter changes. In a store whose review ids are distinct, such a review that
  is unprocessed stays unprocessed after any number of passes. And a pass can return
  counters whose sum is below the number of fetched reviews.
\<close>

theorem short_reviews_stay_unprocessed:
  "(length (strip (review_text r)) < 10 \<longrightarrow> sentiment_step model st r = st) \<and>
   (distinct (map review_id (reviews d)) \<and> r \<in> set (unprocessed_reviews d) \<and>
    length (strip (review_text r)) < 10 \<longrightarrow>
      r \<in> set (unprocessed_reviews (sentiment_passes model n d))) \<and>
   (\<exists>m d0 report d1. run_sentiment_analysis (Some m) d0 = Inr (report, d1) \<and>
      sr_processed report + sr_errors report < sr_total_reviews report)"
proof (intro conjI impI)
  show "sentiment_step model st r = st" if "length (strip (review_text r)) < 10"
    using that by (rule sentiment_step_short)
  show "r \<in> set (unprocessed_reviews (sentiment_passes model n d))"
    if "distinct (map review_id (reviews d)) \<and> r \<in> set (unprocessed_reviews d) \<and>
        length (strip (review_text r)) < 10"
    using that passes_keep_short_unprocessed by blast
  show "\<exists>m d0 report d1. run_sentiment_analysis (Some m) d0 = Inr (report, d1) \<and>
      sr_processed report + sr_errors report < sr_total_reviews report"
    using short_review_pass
    by (intro exI [of _ always_positive] exI [of _ short_review_store]
        exI [of _ "\<lparr>sr_processed = 0, sr_errors = 0, sr_total_reviews = 1\<rparr>"]) auto
qed

lemma short_review_facts:
  "length (strip (review_text short_review)) < 10"
  "distinct (map review_id (reviews short_review_store))"
  "short_review \<in> set (unprocessed_reviews short_review_store)"
  by code_simp+

theorem short_reviews_stay_unprocessed_witness:
  "sentiment_step always_positive \<lparr>s_db = short_review_store, processed = 0, errors = 0\<rparr> short_review =
     \<lparr>s_db = short_review_store, processed = 0, errors = 0\<rparr> \<and>
   short_review \<in> set (unprocessed_reviews (sentiment_passes always_positive 3 short_review_store)) \<and>
   run_sentiment_analysis (Some always_positive) short_review_store =
     Inr (\<lparr>sr_processed = 0, sr_errors = 0, sr_total_reviews = 1\<rparr>, short_review_store)"
  using short_reviews_stay_unprocessed [where r = short_review and model = always_positive
      and st = "\<lparr>s_db = short_review_store, processed = 0, errors = 0\<rparr>"
      and d = short_review_store and n = 3]
  by (simp add: short_review_facts short_review_pass)

section \<open>The topic pass: frame and cases\<close>

lemma insert_ignore_review_topic_frame [simp]:
  "reviews (insert_ignore_review_topic d rid tid sc) = reviews d"
  "phones (insert_ignore_review_topic d rid tid sc) = phones d"
  by (simp_all add: insert_ignore_review_topic_def)

lemma insert_ignore_topic_frame [simp]:
  "reviews (fst (insert_ignore_topic d pid lab terms)) = reviews d"
  "review_topics (fst (insert_ignore_topic d pid lab terms)) = review_topics d"
  by (simp_all add: insert_ignore_topic_def Let_def)

lemma link_reviews_reviews [simp]:
  "reviews (snd (link_reviews p rids tdb tid es d)) = reviews d"
  by (induction p rids tdb tid es d rule: link_reviews.induct) (simp_all split: sum.splits)

text \<open>The store after one topic is the store before it, or the store with the topic
  row, or that store after the association loop.\<close>

lemma process_topic_db:
  fixes pid rids out d n tid
  defines "lab \<equiv> make_topic_label (map fst (take 3 (get_topic out tid)))"
    and "terms \<equiv> take 5 (get_topic out tid)"
  defines "ins \<equiv> insert_ignore_topic d pid lab terms"
  defines "tdb \<equiv> (if snd ins = 0
      then (case select_topic_id (fst ins) pid lab of None \<Rightarrow> 0 | Some t \<Rightarrow> t) else snd ins)"
  shows "fst (process_topic pid rids out (d, n) tid) = d \<or>
         fst (process_topic pid rids out (d, n) tid) = fst ins \<or>
         fst (process_topic pid rids out (d, n) tid) =
           snd (link_reviews (probs out) rids tdb tid (enumerate 0 (doc_topics out)) (fst ins))"
proof -
  obtain d1 l where ins_eq: "insert_ignore_topic d pid lab terms = (d1, l)"
    by (cases "insert_ignore_topic d pid lab terms")
  obtain e d2 where link:
    "link_reviews (probs out) rids tdb tid (enumerate 0 (doc_topics out)) d1 = (e, d2)"
    by (cases "link_reviews (probs out) rids tdb tid (enumerate 0 (doc_topics out)) d1")
  have ins': "ins = (d1, l)" by (simp add: ins_def ins_eq)
  have tdb': "tdb = (if l = 0
      then (case select_topic_id d1 pid lab of None \<Rightarrow> 0 | Some t \<Rightarrow> t) else l)"
    by (simp add: tdb_def ins')
  show ?thesis
    unfolding process_topic_def Let_def lab_def [symmetric] terms_def [symmetric]
    using ins_eq link
    by (cases e) (simp_all add: ins' tdb' [symmetric])
qed

lemma process_topic_reviews [simp]:
  "reviews (fst (process_topic pid rids out st tid)) = reviews (fst st)"
proof (cases st)
  case (Pair d n)
  from process_topic_db [of pid rids out d n tid] show ?thesis
    unfolding Pair by (elim disjE) simp_all
qed

lemma foldl_process_topic_reviews [simp]:
  "reviews (fst (foldl (process_topic pid rids out) st tids)) = reviews (fst st)"
  by (induction tids arbitrary: st) simp_all

lemma process_topics_frame:
  "reviews (t_db (process_topics pid name rids out st)) = reviews (t_db st)"
  "calls (process_topics pid name rids out st) = calls st"
  "\<exists>line. results (process_topics pid name rids out st) = results st @ [line]"
proof -
  obtain d n where f: "foldl (process_topic pid rids out) (t_db st, 0) (remdups (doc_topics out)) = (d, n)"
    by (cases "foldl (process_topic pid rids out) (t_db st, 0) (remdups (doc_topics out))")
  from foldl_process_topic_reviews [of pid rids out "(t_db st, 0)" "remdups (doc_topics out)"] f
  have "reviews d = reviews (t_db st)" by simp
  then show "reviews (t_db (process_topics pid name rids out st)) = reviews (t_db st)"
    by (simp add: process_topics_def f)
  show "calls (process_topics pid name rids out st) = calls st"
    by (simp add: process_topics_def f)
  show "\<exists>line. results (process_topics pid name rids out st) = results st @ [line]"
    by (simp add: process_topics_def f)
qed

subsection \<open>The cases of one phone\<close>

lemma phone_step_query_error:
  "reviews_query_error env (phone_id ph) = Some msg \<Longrightarrow>
   phone_step env st ph =
     st\<lparr>results := results st @ [cross_mark @ '' '' @ phone_name ph @ '': '' @ msg]\<rparr>"
  by (simp add: phone_step_def)

lemma phone_step_skipped:
  assumes "reviews_query_error env (phone_id ph) = None"
    and "length (phone_docs (t_db st) (phone_id ph)) < 10"
  shows "phone_step env st ph =
     st\<lparr>results := results st @
       [''Skipped '' @ phone_name ph @ '': only '' @
        str_nat (length (phone_docs (t_db st) (phone_id ph))) @ '' clean reviews'']\<rparr>"
  using assms by (simp add: phone_step_def phone_docs_def Let_def)

lemma phone_step_modeled:
  assumes "reviews_query_error env (phone_id ph) = None"
    and "10 \<le> length (phone_docs (t_db st) (phone_id ph))"
  shows "phone_step env st ph =
    (let docs = phone_docs (t_db st) (phone_id ph);
         rids = phone_review_ids (t_db st) (phone_id ph);
         n = length docs;
         st1 = st\<lparr>calls := calls st @ [(primary_config n, docs)]\<rparr>;
         st2 = st\<lparr>calls := calls st @ [(primary_config n, docs), (retry_config n, docs)]\<rparr>
     in case fit_transform env (calls st) (primary_config n) docs of
          Inr out \<Rightarrow> process_topics (phone_id ph) (phone_name ph) rids out st1
        | Inl e1 \<Rightarrow>
            (case fit_transform env (calls st @ [(primary_config n, docs)]) (retry_config n) docs of
               Inr out \<Rightarrow> process_topics (phone_id ph) (phone_name ph) rids out st2
             | Inl e2 \<Rightarrow>
                 st2\<lparr>results := results st @
                   [cross_mark @ '' '' @ phone_name ph @ '': Topic modeling failed completely'']\<rparr>))"
proof -
  let ?docs = "phone_docs (t_db st) (phone_id ph)"
  from assms(2) have n: "\<not> length ?docs < 10" "\<not> length ?docs < 5" by simp_all
  have len: "length (clean_reviews (filter (\<lambda>r. r_phone_id r = phone_id ph) (reviews (t_db st)))) = length ?docs"
    by (simp add: phone_docs_def)
  show ?thesis
    using assms(1) n
    unfolding phone_step_def Let_def
    apply (simp only: option.case phone_docs_def [symmetric] phone_review_ids_def [symmetric] if_False)
    apply (simp add: primary_config_def retry_config_def split: sum.splits)
    done
qed

subsection \<open>The loop over the phones\<close>

lemma phone_step_frame:
  "reviews (t_db (phone_step env st ph)) = reviews (t_db st)"
  "\<exists>line. results (phone_step env st ph) = results st @ [line]"
  "\<exists>cs. calls (phone_step env st ph) = calls st @ cs \<and> (\<forall>c \<in> set cs. 10 \<le> length (snd c))"
proof -
  let ?docs = "phone_docs (t_db st) (phone_id ph)"
  let ?n = "length ?docs"
  let ?P = "\<lambda>s. reviews (t_db s) = reviews (t_db st) \<and>
      (\<exists>line. results s = results st @ [line]) \<and>
      (\<exists>cs. calls s = calls st @ cs \<and> (\<forall>c \<in> set cs. 10 \<le> length (snd c)))"
  have "?P (phone_step env st ph)"
  proof (cases "reviews_query_error env (phone_id ph)")
    case (Some msg)
    then show ?thesis by (simp add: phone_step_query_error)
  next
    case None
    show ?thesis
    proof (cases "?n < 10")
      case True
      with None show ?thesis by (simp add: phone_step_skipped)
    next
      case False
      then have ge: "10 \<le> ?n" by simp
      let ?st1 = "st\<lparr>calls := calls st @ [(primary_config ?n, ?docs)]\<rparr>"
      let ?st2 = "st\<lparr>calls := calls st @ [(primary_config ?n, ?docs), (retry_config ?n, ?docs)]\<rparr>"
      show ?thesis
      proof (cases "fit_transform env (calls st) (primary_config ?n) ?docs")
        case (Inr out)
        with None ge have eq: "phone_step env st ph =
            process_topics (phone_id ph) (phone_name ph) (phone_review_ids (t_db st) (phone_id ph)) out ?st1"
          by (simp add: phone_step_modeled Let_def)
        show ?thesis
          unfolding eq using ge
            process_topics_frame [of "phone_id ph" "phone_name ph"
              "phone_review_ids (t_db st) (phone_id ph)" out ?st1]
          by simp
      next
        case (Inl e1)
        show ?thesis
        proof (cases "fit_transform env (calls st @ [(primary_config ?n, ?docs)]) (retry_config ?n) ?docs")
          case (Inr out)
          with None ge Inl have eq: "phone_step env st ph =
              process_topics (phone_id ph) (phone_name ph) (phone_review_ids (t_db st) (phone_id ph)) out ?st2"
            by (simp add: phone_step_modeled Let_def)
          show ?thesis
            unfolding eq using ge
              process_topics_frame [of "phone_id ph" "phone_name ph"
                "phone_review_ids (t_db st) (phone_id ph)" out ?st2]
            by simp
        next
          case (Inl e2)
          with None ge \<open>fit_transform env (calls st) (primary_config ?n) ?docs = Inl e1\<close>
          have eq: "phone_step env st ph = ?st2\<lparr>results := results st @
              [cross_mark @ '' '' @ phone_name ph @ '': Topic modeling failed completely'']\<rparr>"
            by (simp add: phone_step_modeled Let_def)
          show ?thesis unfolding eq using ge by simp
        qed
      qed
    qed
  qed
  then show "reviews (t_db (phone_step env st ph)) = reviews (t_db st)"
    and "\<exists>line. results (phone_step env st ph) = results st @ [line]"
    and "\<exists>cs. calls (phone_step env st ph) = calls st @ cs \<and> (\<forall>c \<in> set cs. 10 \<le> length (snd c))"
    by blast+
qed

lemma foldl_phone_step_reviews:
  "reviews (t_db (foldl (phone_step env) st ps)) = reviews (t_db st)"
  by (induction ps arbitrary: st) (simp_all add: phone_step_frame(1))

lemma foldl_phone_step_results:
  "\<exists>ls. results (foldl (phone_step env) st ps) = results st @ ls \<and> length ls = length ps"
proof (induction ps arbitrary: st)
  case Nil
  then show ?case by simp
next
  case (Cons ph ps)
  obtain line where 1: "results (phone_step env st ph) = results st @ [line]"
    using phone_step_frame(2) by blast
  obtain ls where 2: "results (foldl (phone_step env) (phone_step env st ph) ps) =
      results (phone_step env st ph) @ ls" "length ls = length ps"
    using Cons.IH by blast
  from 1 2 have "results (foldl (phone_step env) st (ph # ps)) = results st @ (line # ls)
      \<and> length (line # ls) = length (ph # ps)" by simp
  then show ?case by blast
qed

lemma foldl_phone_step_calls:
  "\<exists>cs. calls (foldl (phone_step env) st ps) = calls st @ cs \<and> (\<forall>c \<in> set cs. 10 \<le> length (snd c))"
proof (induction ps arbitrary: st)
  case Nil
  then show ?case by simp
next
  case (Cons ph ps)
  obtain cs1 where 1: "calls (phone_step env st ph) = calls st @ cs1"
      "\<forall>c \<in> set cs1. 10 \<le> length (snd c)"
    using phone_step_frame(3) by blast
  obtain cs2 where 2: "calls (foldl (phone_step env) (phone_step env st ph) ps) =
      calls (phone_step env st ph) @ cs2" "\<forall>c \<in> set cs2. 10 \<le> length (snd c)"
    using Cons.IH by blast
  from 1 2 have "calls (foldl (phone_step env) st (ph # ps)) = calls st @ (cs1 @ cs2)
      \<and> (\<forall>c \<in> set (cs1 @ cs2). 10 \<le> length (snd c))" by auto
  then show ?case by blast
qed

text \<open>The state in which a phone of the list is reached, and what follows it.\<close>

lemma foldl_phone_step_reach:
  assumes "ph \<in> set ps"
  shows "\<exists>st'. reviews (t_db st') = reviews (t_db st) \<and>
           set (results (phone_step env st' ph)) \<subseteq> set (results (foldl (phone_step env) st ps)) \<and>
           set (calls (phone_step env st' ph)) \<subseteq> set (calls (foldl (phone_step env) st ps))"
proof -
  from assms obtain xs ys where ps: "ps = xs @ ph # ys" by (meson split_list)
  let ?st' = "foldl (phone_step env) st xs"
  have fin: "foldl (phone_step env) st ps = foldl (phone_step env) (phone_step env ?st' ph) ys"
    by (simp add: ps)
  obtain ls where "results (foldl (phone_step env) (phone_step env ?st' ph) ys) =
      results (phone_step env ?st' ph) @ ls"
    using foldl_phone_step_results by blast
  moreover obtain cs where "calls (foldl (phone_step env) (phone_step env ?st' ph) ys) =
      calls (phone_step env ?st' ph) @ cs"
    using foldl_phone_step_calls by blast
  ultimately show ?thesis
    using foldl_phone_step_reviews [of env st xs] unfolding fin
    by (intro exI [of _ ?st']) auto
qed

lemma topic_phones_iff:
  "ph \<in> set (topic_phones d) \<longleftrightarrow> ph \<in> set (phones d) \<and> 10 \<le> review_count d (phone_id ph)"
  by (auto simp: topic_phones_def)

lemma phone_docs_cong: "reviews d' = reviews d \<Longrightarrow> phone_docs d' pid = phone_docs d pid"
  by (simp add: phone_docs_def)

text \<open>A phone with at least 10 documents gets its primary call.\<close>

lemma phone_step_primary_call:
  assumes "reviews_query_error env (phone_id ph) = None"
    and "10 \<le> length (phone_docs (t_db st) (phone_id ph))"
  shows "(primary_config (length (phone_docs (t_db st) (phone_id ph))),
          phone_docs (t_db st) (phone_id ph)) \<in> set (calls (phone_step env st ph))"
  using phone_step_modeled [OF assms]
  by (auto simp: Let_def process_topics_frame(2) split: sum.splits)

lemma topic_loop_primary_call:
  assumes "ph \<in> set (topic_phones d)"
    and "reviews_query_error env (phone_id ph) = None"
    and "10 \<le> length (phone_docs d (phone_id ph))"
  shows "(primary_config (length (phone_docs d (phone_id ph))), phone_docs d (phone_id ph))
           \<in> set (calls (topic_loop env d))"
proof -
  from foldl_phone_step_reach [OF assms(1), of "\<lparr>t_db = d, results = [], calls = []\<rparr>" env]
  obtain st' where rv: "reviews (t_db st') = reviews d"
    and cal: "set (calls (phone_step env st' ph)) \<subseteq> set (calls (topic_loop env d))"
    by (auto simp: topic_loop_def)
  have docs: "phone_docs (t_db st') (phone_id ph) = phone_docs d (phone_id ph)"
    using rv by (rule phone_docs_cong)
  from phone_step_primary_call [of env ph st'] assms(2,3) docs cal show ?thesis by auto
qed

lemma config_fields:
  "ngram_range (primary_config n) = (1, 2)"
  "ngram_range (retry_config n) = (1, 1)"
  "cfg_min_df (retry_config n) = 1"
  "cfg_max_df (retry_config n) = 1"
  by (simp_all add: primary_config_def retry_config_def create_topic_model_def)

subsection \<open>Evaluations\<close>

lemma str_nat_9: "str_nat 9 = ''9''"
  by (simp add: str_nat.simps digit_def)

lemma nine_review_docs: "length (phone_docs nine_review_store (phone_id phone_x)) = 9"
  by code_simp

lemma nine_review_phone: "phone_x \<in> set (phones nine_review_store)"
  by (simp add: nine_review_store_def store_of_def)

lemma nine_review_count: "review_count nine_review_store (phone_id phone_x) = 9"
  by code_simp

lemma nine_review_run:
  "run_topic_modeling True narrow_env nine_review_store =
     Inr (\<lparr>phones_processed = 0, tr_results = []\<rparr>, fresh_state nine_review_store)"
  by code_simp

lemma nine_clean_facts:
  "phone_x \<in> set (phones nine_clean_store)"
  "10 \<le> review_count nine_clean_store (phone_id phone_x)"
  "length (phone_docs nine_clean_store (phone_id phone_x)) = 9"
  by code_simp+

lemma ten_review_facts:
  "phone_x \<in> set (phones ten_review_store)"
  "10 \<le> review_count ten_review_store (phone_id phone_x)"
  "phone_docs ten_review_store (phone_id phone_x) = battery_docs"
  by code_simp+

lemma battery_docs_length: "length battery_docs = 10"
  by (simp add: battery_docs_def)

lemma narrow_env_query: "reviews_query_error narrow_env pid = None"
  by (simp add: narrow_env_def no_query_error_def)

lemma flaky_env_query: "reviews_query_error flaky_env pid = None"
  by (simp add: flaky_env_def no_query_error_def)

lemma phone_x_name: "phone_name phone_x = ''PhoneX''"
  by (simp add: phone_x_def)

section \<open>The threshold of 10 cleaned reviews (claim C6)\<close>

text \<open>
  Claim C6 as stated fails for a phone that has exactly 9 reviews, all of them usable:
  the phones query only fetches phones with at least 10 reviews, so the pass never
  reaches this phone and reports nothing about it.
\<close>

theorem nine_reviews_no_message:
  "phone_x \<in> set (phones nine_review_store) \<and>
   review_count nine_review_store (phone_id phone_x) = 9 \<and>
   length (phone_docs nine_review_store (phone_id phone_x)) = 9 \<and>
   run_topic_modeling True narrow_env nine_review_store =
     Inr (\<lparr>phones_processed = 0, tr_results = []\<rparr>, fresh_state nine_review_store)"
  by (simp add: nine_review_phone nine_review_count nine_review_docs nine_review_run)

text \<open>
  Claim C6, amended. The pass fetches exactly the phones that have at least 10 reviews.
  When the reviews query of such a phone succeeds: if the phone has exactly 9 cleaned reviews
  of at least 5 words, the results hold the line \<open>Skipped <name>: only 9 clean reviews\<close>
  and the library is never called with its documents; if it has exactly 10, the library
  is called with its documents and the primary configuration.
\<close>

theorem topic_pass_threshold:
  assumes "ph \<in> set (phones d)"
    and "10 \<le> review_count d (phone_id ph)"
    and "reviews_query_error env (phone_id ph) = None"
  shows "(q \<in> set (topic_phones d) \<longleftrightarrow> q \<in> set (phones d) \<and> 10 \<le> review_count d (phone_id q)) \<and>
         (length (phone_docs d (phone_id ph)) = 9 \<longrightarrow>
            ''Skipped '' @ phone_name ph @ '': only 9 clean reviews''
              \<in> set (results (topic_loop env d)) \<and>
            (\<forall>c \<in> set (calls (topic_loop env d)). snd c \<noteq> phone_docs d (phone_id ph))) \<and>
         (length (phone_docs d (phone_id ph)) = 10 \<longrightarrow>
            (primary_config 10, phone_docs d (phone_id ph)) \<in> set (calls (topic_loop env d)))"
proof -
  let ?docs = "phone_docs d (phone_id ph)"
  let ?init = "\<lparr>t_db = d, results = [], calls = []\<rparr>"
  from assms(1,2) have "ph \<in> set (topic_phones d)" by (simp add: topic_phones_iff)
  from foldl_phone_step_reach [OF this, of ?init env]
  obtain st' where rv: "reviews (t_db st') = reviews d"
    and res: "set (results (phone_step env st' ph)) \<subseteq> set (results (topic_loop env d))"
    and cal: "set (calls (phone_step env st' ph)) \<subseteq> set (calls (topic_loop env d))"
    by (auto simp: topic_loop_def)
  have docs: "phone_docs (t_db st') (phone_id ph) = ?docs"
    using rv by (rule phone_docs_cong)
  have nine: "''Skipped '' @ phone_name ph @ '': only 9 clean reviews''
        \<in> set (results (topic_loop env d)) \<and>
      (\<forall>c \<in> set (calls (topic_loop env d)). snd c \<noteq> ?docs)" if len: "length ?docs = 9"
  proof
    have "phone_step env st' ph = st'\<lparr>results := results st' @
        [''Skipped '' @ phone_name ph @ '': only '' @ str_nat 9 @ '' clean reviews'']\<rparr>"
      using phone_step_skipped [of env ph st'] assms(3) len docs by simp
    moreover have "str_nat 9 = ''9''" by (simp add: str_nat.simps digit_def)
    ultimately have "''Skipped '' @ phone_name ph @ '': only 9 clean reviews''
        \<in> set (results (phone_step env st' ph))" by simp
    with res show "''Skipped '' @ phone_name ph @ '': only 9 clean reviews''
        \<in> set (results (topic_loop env d))" by blast
    obtain cs where "calls (topic_loop env d) = [] @ cs" "\<forall>c \<in> set cs. 10 \<le> length (snd c)"
      using foldl_phone_step_calls [of env ?init "topic_phones d"]
      by (auto simp: topic_loop_def)
    with len show "\<forall>c \<in> set (calls (topic_loop env d)). snd c \<noteq> ?docs" by auto
  qed
  have ten: "(primary_config 10, ?docs) \<in> set (calls (topic_loop env d))" if len: "length ?docs = 10"
  proof -
    have ge: "10 \<le> length (phone_docs (t_db st') (phone_id ph))" using len docs by simp
    from phone_step_primary_call [OF assms(3) ge] len docs
    have "(primary_config 10, ?docs) \<in> set (calls (phone_step env st' ph))" by simp
    with cal show ?thesis by blast
  qed
  from nine ten topic_phones_iff [of q d] show ?thesis by blast
qed

theorem topic_pass_threshold_witness:
  "''Skipped PhoneX: only 9 clean reviews'' \<in> set (results (topic_loop narrow_env nine_clean_store)) \<and>
   (primary_config 10, battery_docs) \<in> set (calls (topic_loop narrow_env ten_review_store)) \<and>
   phone_x \<notin> set (topic_phones nine_review_store)"
proof -
  note a = topic_pass_threshold [OF nine_clean_facts(1) nine_clean_facts(2) narrow_env_query]
  note b = topic_pass_threshold [OF ten_review_facts(1) ten_review_facts(2) narrow_env_query]
  from a have 1: "''Skipped PhoneX: only 9 clean reviews''
      \<in> set (results (topic_loop narrow_env nine_clean_store))"
    by (simp add: nine_clean_facts(3) phone_x_name)
  from b have 2: "(primary_config 10, battery_docs) \<in> set (calls (topic_loop narrow_env ten_review_store))"
    by (simp add: ten_review_facts(3) battery_docs_length)
  have 3: "phone_x \<notin> set (topic_phones nine_review_store)"
    by (simp add: topic_phones_iff nine_review_count)
  from 1 2 3 show ?thesis by simp
qed

section \<open>The retry policy (claim C7)\<close>

text \<open>
  Claim C7. For a phone with at least 10 documents whose reviews query succeeds: the
  first call to the library uses bigrams (\<open>ngram_range = (1, 2)\<close>); when it succeeds,
  it is the only call; when it raises, there is exactly one more call, with unigrams,
  \<open>min_df = 1\<close> and \<open>max_df = 1.0\<close>; when that one raises too, the step only records
  the two calls and the line \<open>Topic modeling failed completely\<close> for the phone. The
  loop goes on whatever happens to a phone: the pass returns one result line per
  fetched phone, and every fetched phone with at least 10 documents (and a successful
  reviews query) gets its primary call.
\<close>

theorem topic_retry_policy:
  fixes env :: topic_env and st :: topic_state and ph :: phone_row and d :: db
  defines "docs \<equiv> phone_docs (t_db st) (phone_id ph)"
  defines "primary \<equiv> primary_config (length docs)" and "retry \<equiv> retry_config (length docs)"
  assumes ok: "reviews_query_error env (phone_id ph) = None"
    and ten: "10 \<le> length docs"
  shows "ngram_range primary = (1, 2) \<and> ngram_range retry = (1, 1) \<and>
         cfg_min_df retry = 1 \<and> cfg_max_df retry = 1 \<and>
         (\<forall>out. fit_transform env (calls st) primary docs = Inr out \<longrightarrow>
            calls (phone_step env st ph) = calls st @ [(primary, docs)]) \<and>
         (\<forall>e1. fit_transform env (calls st) primary docs = Inl e1 \<longrightarrow>
            calls (phone_step env st ph) = calls st @ [(primary, docs), (retry, docs)]) \<and>
         (\<forall>e1 e2. fit_transform env (calls st) primary docs = Inl e1 \<and>
            fit_transform env (calls st @ [(primary, docs)]) retry docs = Inl e2 \<longrightarrow>
            phone_step env st ph =
              st\<lparr>calls := calls st @ [(primary, docs), (retry, docs)],
                 results := results st @
                   [cross_mark @ '' '' @ phone_name ph @ '': Topic modeling failed completely'']\<rparr>) \<and>
         length (results (topic_loop env d)) = length (topic_phones d) \<and>
         (\<forall>q \<in> set (topic_phones d).
            reviews_query_error env (phone_id q) = None \<and>
            10 \<le> length (phone_docs d (phone_id q)) \<longrightarrow>
            (primary_config (length (phone_docs d (phone_id q))), phone_docs d (phone_id q))
              \<in> set (calls (topic_loop env d))) \<and>
         run_topic_modeling True env d =
           Inr (\<lparr>phones_processed = length (topic_phones d),
                 tr_results = results (topic_loop env d)\<rparr>, topic_loop env d)"
proof -
  note step = phone_step_modeled [OF ok, of st] 
  have ten': "10 \<le> length (phone_docs (t_db st) (phone_id ph))" using ten by (simp add: docs_def)
  have a: "calls (phone_step env st ph) = calls st @ [(primary, docs)]"
    if "fit_transform env (calls st) primary docs = Inr out" for out
    using step [OF ten'] that
    by (simp add: Let_def docs_def primary_def process_topics_frame(2))
  have b: "calls (phone_step env st ph) = calls st @ [(primary, docs), (retry, docs)]"
    if "fit_transform env (calls st) primary docs = Inl e1" for e1
    using step [OF ten'] that
    by (simp add: Let_def docs_def primary_def retry_def process_topics_frame(2) split: sum.splits)
  have c: "phone_step env st ph =
      st\<lparr>calls := calls st @ [(primary, docs), (retry, docs)],
         results := results st @
           [cross_mark @ '' '' @ phone_name ph @ '': Topic modeling failed completely'']\<rparr>"
    if "fit_transform env (calls st) primary docs = Inl e1"
      and "fit_transform env (calls st @ [(primary, docs)]) retry docs = Inl e2" for e1 e2
    using step [OF ten'] that
    by (simp add: Let_def docs_def primary_def retry_def)
  have len: "length (results (topic_loop env d)) = length (topic_phones d)"
    using foldl_phone_step_results [of env "\<lparr>t_db = d, results = [], calls = []\<rparr>" "topic_phones d"]
    by (auto simp: topic_loop_def)
  have all: "\<forall>q \<in> set (topic_phones d).
      reviews_query_error env (phone_id q) = None \<and> 10 \<le> length (phone_docs d (phone_id q)) \<longrightarrow>
      (primary_config (length (phone_docs d (phone_id q))), phone_docs d (phone_id q))
        \<in> set (calls (topic_loop env d))"
    using topic_loop_primary_call by blast
  have run: "run_topic_modeling True env d =
      Inr (\<lparr>phones_processed = length (topic_phones d),
            tr_results = results (topic_loop env d)\<rparr>, topic_loop env d)"
    by (simp add: run_topic_modeling_def Let_def)
  from a b c len all run show ?thesis
    by (simp add: config_fields primary_def retry_def)
qed

lemma two_phone_docs:
  "phone_docs two_phone_store (phone_id phone_x) = battery_docs"
  by code_simp

lemma flaky_first: "fit_transform flaky_env [] cfg docs = Inl ''boom''"
  by (simp add: flaky_env_def flaky_fit_def)

lemma flaky_second: "fit_transform flaky_env [c] cfg docs = Inl ''boom''"
  by (simp add: flaky_env_def flaky_fit_def)

lemma two_phone_results:
  "results (topic_loop flaky_env two_phone_store) =
     [cross_mark @ '' PhoneX: Topic modeling failed completely'',
      check_mark @ '' PhoneY: 1 topics created'']"
  by code_simp

theorem topic_retry_policy_witness:
  "phone_step flaky_env (fresh_state two_phone_store) phone_x =
     \<lparr>t_db = two_phone_store,
      results = [cross_mark @ '' PhoneX: Topic modeling failed completely''],
      calls = [(primary_config 10, battery_docs), (retry_config 10, battery_docs)]\<rparr> \<and>
   ngram_range (primary_config 10) = (1, 2) \<and>
   results (topic_loop flaky_env two_phone_store) =
     [cross_mark @ '' PhoneX: Topic modeling failed completely'',
      check_mark @ '' PhoneY: 1 topics created'']"
proof -
  have ten: "10 \<le> length (phone_docs (t_db (fresh_state two_phone_store)) (phone_id phone_x))"
    by (simp add: fresh_state_def two_phone_docs battery_docs_length)
  note w = topic_retry_policy [OF flaky_env_query ten, where d = two_phone_store]
  from w have "\<forall>e1 e2. fit_transform flaky_env (calls (fresh_state two_phone_store))
        (primary_config 10) battery_docs = Inl e1 \<and>
      fit_transform flaky_env (calls (fresh_state two_phone_store) @ [(primary_config 10, battery_docs)])
        (retry_config 10) battery_docs = Inl e2 \<longrightarrow>
      phone_step flaky_env (fresh_state two_phone_store) phone_x =
        (fresh_state two_phone_store)
          \<lparr>calls := calls (fresh_state two_phone_store) @
             [(primary_config 10, battery_docs), (retry_config 10, battery_docs)],
           results := results (fresh_state two_phone_store) @
             [cross_mark @ '' '' @ phone_name phone_x @ '': Topic modeling failed completely'']\<rparr>"
    by (simp add: fresh_state_def two_phone_docs battery_docs_length)
  then have 1: "phone_step flaky_env (fresh_state two_phone_store) phone_x =
     \<lparr>t_db = two_phone_store,
      results = [cross_mark @ '' PhoneX: Topic modeling failed completely''],
      calls = [(primary_config 10, battery_docs), (retry_config 10, battery_docs)]\<rparr>"
    by (simp add: fresh_state_def flaky_first flaky_second phone_x_name)
  from w have 2: "ngram_range (primary_config 10) = (1, 2)"
    by (simp add: fresh_state_def two_phone_docs battery_docs_length)
  from 1 2 two_phone_results show ?thesis by simp
qed

section \<open>Relevance scores (claim C9)\<close>




























end
